theory Spec2Isabelle
  imports Complex_Main "HOL-Library.Signed_Division"
begin

section \<open>Conventions of the embedding\<close>

text \<open>
  The two C files are embedded function by function.

  \<^item> C \<^verbatim>\<open>int\<close> and \<^verbatim>\<open>long int\<close> values are HOL integers. Division and remainder are the
    truncating ones of C (\<open>sdiv\<close>, \<open>smod\<close>). No expression that is evaluated below leaves
    the 32-bit range for the inputs considered, so wrap-around does not enter.
  \<^item> C \<^verbatim>\<open>double\<close> values are real numbers: rounding is not modelled. Every concrete input that
    is used to evaluate the code below is chosen such that all intermediate values are small
    dyadic rationals, for which IEEE double arithmetic is exact.
  \<^item> A pointer to doubles or longs (\<^verbatim>\<open>double *val\<close>, \<^verbatim>\<open>double *pos\<close>, \<^verbatim>\<open>long int *nEmigrants\<close>)
    is a store: a function from the offset relative to the pointer to the value found there.
    An access outside the allocated block is an access to the store at that offset; whether
    an offset is inside the block is a separate, explicit question.
  \<^item> The integer descriptor arrays of a grid and the per-species arrays of a population are
    lists, indexed from 0.
  \<^item> Counts that the code uses only as loop bounds (\<^verbatim>\<open>rank\<close>, \<^verbatim>\<open>nDims\<close>, \<^verbatim>\<open>nSpecies\<close>) are
    natural numbers.
\<close>

type_synonym doubles = "int \<Rightarrow> real"
type_synonym longs = "int \<Rightarrow> int"

text \<open>The C cast \<^verbatim>\<open>(int) x\<close> of a double: truncation towards zero.\<close>

definition c_int_cast :: "real \<Rightarrow> int" where
  "c_int_cast x = (if 0 \<le> x then \<lfloor>x\<rfloor> else \<lceil>x\<rceil>)"

text \<open>A C comparison used as an integer: 1 when it holds, 0 otherwise.\<close>

definition c_bool :: "bool \<Rightarrow> int" where
  "c_bool b = (if b then 1 else 0)"

section \<open>Grids\<close>

text \<open>
  \<^verbatim>\<open>Grid\<close> (declared in pinc.h): the fields the two files read and write. The halo scratch
  buffer \<^verbatim>\<open>slice\<close> and the file handle \<^verbatim>\<open>h5\<close> carry no field data and are left out.
  \<open>size_g\<close> is the field \<^verbatim>\<open>size\<close>.
\<close>

record Grid =
  rank :: nat
  size_g :: "int list"
  trueSize :: "int list"
  nGhostLayers :: "int list"
  sizeProd :: "int list"
  val :: doubles

text \<open>
  Modelled from the spec: \<^verbatim>\<open>longIntArrCumProd\<close> (an array utility outside the two files):
  \<^verbatim>\<open>sizeProd[0] = 1\<close>, \<^verbatim>\<open>sizeProd[d+1] = sizeProd[d] * size[d]\<close>.
\<close>

fun cumProdFrom :: "int \<Rightarrow> int list \<Rightarrow> int list" where
  "cumProdFrom acc [] = [acc]"
| "cumProdFrom acc (x # xs) = acc # cumProdFrom (acc * x) xs"

definition longIntArrCumProd :: "int list \<Rightarrow> int list" where
  "longIntArrCumProd sz = cumProdFrom 1 sz"

section \<open>multigrid.c: allocation of the hierarchy\<close>

text \<open>
  The body of the loop over \<^verbatim>\<open>q\<close> in \<^verbatim>\<open>mgAllocSubGrids\<close>: the descriptor arrays of the grid
  on level \<open>q\<close>, computed from the finest grid. The value array is freshly allocated; its
  content is not initialised by the code and is taken to be 0 here.
\<close>

definition subTrueSize :: "Grid \<Rightarrow> int \<Rightarrow> int list" where
  "subTrueSize grid q =
     (trueSize grid ! 0) # map (\<lambda>d. (trueSize grid ! d) sdiv (2 * q)) [1..<rank grid]"

definition subSize :: "Grid \<Rightarrow> int \<Rightarrow> int list" where
  "subSize grid q =
     (trueSize grid ! 0) #
     map (\<lambda>d. subTrueSize grid q ! d + nGhostLayers grid ! d + nGhostLayers grid ! (rank grid + d))
         [1..<rank grid]"

definition subGrid :: "Grid \<Rightarrow> int \<Rightarrow> Grid" where
  "subGrid grid q =
     \<lparr> rank = rank grid,
       size_g = subSize grid q,
       trueSize = subTrueSize grid q,
       nGhostLayers = map (\<lambda>d. nGhostLayers grid ! d) [0..<2 * rank grid],
       sizeProd = longIntArrCumProd (subSize grid q),
       val = (\<lambda>_. 0) \<rparr>"

function mgAllocSubGrids_loop :: "Grid \<Rightarrow> int \<Rightarrow> int \<Rightarrow> Grid list \<Rightarrow> Grid list" where
  "mgAllocSubGrids_loop grid nLevels q grids =
     (if q < nLevels
      then mgAllocSubGrids_loop grid nLevels (q + 1) (grids @ [subGrid grid q])
      else grids)"
  by pat_completeness auto
termination
  by (relation "measure (\<lambda>(grid, nLevels, q, grids). nat (nLevels - q))") auto

declare mgAllocSubGrids_loop.simps [simp del]

definition mgAllocSubGrids :: "Grid \<Rightarrow> int \<Rightarrow> Grid list" where
  "mgAllocSubGrids grid nLevels = mgAllocSubGrids_loop grid nLevels 1 [grid]"

text \<open>
  Modelled from the spec: \<^verbatim>\<open>msg(ERROR, ...)\<close> (declared in pinc.h) is fatal: it surfaces one
  diagnostic and terminates the process. A fatal termination is the value \<open>Inl (Fatal m)\<close>.
\<close>

datatype error = Fatal string

datatype smoother = GaussSeidel2D | GaussSeidel3D | Jacobian
datatype restrictor = HalfWeightRestrict2D | HalfWeightRestrict3D
datatype prolongator = BilinearProlong2D | BilinearProlong3D

text \<open>The values \<^verbatim>\<open>mgAlloc\<close>, \<^verbatim>\<open>setSolvers\<close> and \<^verbatim>\<open>setRestrictProlong\<close> read from the dictionary.\<close>

record MgIni =
  mgLevels :: int
  mgCycles :: int
  ini_nPreSmooth :: int
  ini_nPostSmooth :: int
  ini_nCoarseSolve :: int
  ini_preSmooth :: string
  ini_postSmooth :: string
  ini_coarseSolv :: string
  ini_restrictor :: string
  ini_prolongator :: string

record Multigrid =
  nLevels :: int
  nMGCycles :: int
  nPreSmooth :: int
  nPostSmooth :: int
  nCoarseSolve :: int
  grids :: "Grid list"
  preSmooth :: smoother
  postSmooth :: smoother
  coarseSolv :: smoother
  restrictor :: restrictor
  prolongator :: prolongator

text \<open>
  One of the three identical blocks of \<^verbatim>\<open>setSolvers\<close>; the two diagnostics of the block are
  passed in, as each block has its own wording. A diagnostic is the format string handed to
  \<^verbatim>\<open>msg\<close>; the argument of \<^verbatim>\<open>%d\<close> is not rendered.
\<close>

definition setSolver :: "string \<Rightarrow> nat \<Rightarrow> string \<Rightarrow> string \<Rightarrow> error + smoother" where
  "setSolver name nDims noDims noAlgo =
     (if name = ''gaussSeidel'' then
        (if nDims = 2 then Inr GaussSeidel2D
         else if nDims = 3 then Inr GaussSeidel3D
         else Inl (Fatal noDims))
      else if name = ''jacobian'' then Inr Jacobian
      else Inl (Fatal noAlgo))"

definition setRestrictor :: "string \<Rightarrow> nat \<Rightarrow> error + restrictor" where
  "setRestrictor name rnk =
     (if name = ''halfWeight'' then
        (if rnk = 3 then Inr HalfWeightRestrict2D
         else if rnk = 4 then Inr HalfWeightRestrict3D
         else Inl (Fatal ''No restricting algorithm for D%d''))
      else Inl (Fatal ''No restrict stencil specified''))"

definition setProlongator :: "string \<Rightarrow> nat \<Rightarrow> error + prolongator" where
  "setProlongator name rnk =
     (if name = ''bilinear'' then
        (if rnk = 3 then Inr BilinearProlong2D
         else if rnk = 4 then Inr BilinearProlong3D
         else Inl (Fatal ''No restricting algorithm for D%d''))
      else Inl (Fatal ''No prolongation stencil specified''))"

text \<open>
  The sanity loop of \<^verbatim>\<open>mgAlloc\<close>. The condition is the C expression
  \<^verbatim>\<open>trueSize[d+1] % (int) 2*nLevels\<close>: the cast binds to \<open>2\<close>, and \<^verbatim>\<open>%\<close> and \<^verbatim>\<open>*\<close> associate
  to the left, so it is \<open>(trueSize[d+1] % 2) * nLevels\<close>.
\<close>

function mgAlloc_sanity :: "int list \<Rightarrow> int \<Rightarrow> nat \<Rightarrow> nat \<Rightarrow> error + unit" where
  "mgAlloc_sanity tsz nLev nDims d =
     (if d < nDims then
        (if ((tsz ! (d + 1)) smod 2) * nLev \<noteq> 0
         then Inl (Fatal ''The number of True Grid Points needs to be a multiple of 2^nLevels'')
         else mgAlloc_sanity tsz nLev nDims (d + 1))
      else Inr ())"
  by pat_completeness auto
termination
  by (relation "measure (\<lambda>(tsz, nLev, nDims, d). nDims - d)") auto

declare mgAlloc_sanity.simps [simp del]

definition mgAlloc :: "MgIni \<Rightarrow> Grid \<Rightarrow> error + Multigrid" where
  "mgAlloc ini grid =
     (if mgLevels ini = 0
      then Inl (Fatal (''Multi Grid levels is 0, direct solver not implemented yet '' @ [CHR 0x0A]))
      else if mgCycles ini = 0 then Inl (Fatal (''MG cycles is 0 '' @ [CHR 0x0A]))
      else case mgAlloc_sanity (trueSize grid) (mgLevels ini) (rank grid - 1) 0 of
        Inl e \<Rightarrow> Inl e
      | Inr _ \<Rightarrow>
         (let gs = mgAllocSubGrids grid (mgLevels ini);
              nDims = rank (gs ! 0) - 1
          in case setSolver (ini_preSmooth ini) nDims
                 ''No Presmoothing algorithm set for dimensions %d''
                 ''No Presmoothing algorithm specified'' of
               Inl e \<Rightarrow> Inl e
             | Inr pre \<Rightarrow>
          (case setSolver (ini_postSmooth ini) nDims
                 ''No postsmoothing algorithm set for dimensions %d''
                 ''No Postsmoothing algorithm specified'' of
               Inl e \<Rightarrow> Inl e
             | Inr post \<Rightarrow>
          (case setSolver (ini_coarseSolv ini) nDims
                 ''No coarsesolver algorithm set for dimensions %d''
                 ''No coarse Grid Solver algorithm specified'' of
               Inl e \<Rightarrow> Inl e
             | Inr coarse \<Rightarrow>
          (case setRestrictor (ini_restrictor ini) (rank (gs ! 0)) of
               Inl e \<Rightarrow> Inl e
             | Inr res \<Rightarrow>
          (case setProlongator (ini_prolongator ini) (rank (gs ! 0)) of
               Inl e \<Rightarrow> Inl e
             | Inr pro \<Rightarrow>
                Inr \<lparr> nLevels = mgLevels ini, nMGCycles = mgCycles ini,
                      nPreSmooth = ini_nPreSmooth ini, nPostSmooth = ini_nPostSmooth ini,
                      nCoarseSolve = ini_nCoarseSolve ini, grids = gs,
                      preSmooth = pre, postSmooth = post, coarseSolv = coarse,
                      restrictor = res, prolongator = pro \<rparr>))))))"

section \<open>pusher.c: neighbour index algebra\<close>

text \<open>
  \<^verbatim>\<open>puNeighborToReciprocal\<close>. \<^verbatim>\<open>reciprocal\<close> and \<^verbatim>\<open>neighbor\<close> are 32-bit \<^verbatim>\<open>int\<close>s. \<^verbatim>\<open>pow(3,d)\<close> is a
  double, so the right-hand side of \<^verbatim>\<open>+=\<close> is computed in doubles and converted back to \<^verbatim>\<open>int\<close>
  on assignment. The conversion truncates towards zero when the truncated value is an \<^verbatim>\<open>int\<close>.
  When it is not, the C standard leaves the behaviour undefined; the model takes what the
  conversion instruction of x86 (\<^verbatim>\<open>cvttsd2si\<close>) delivers, the most negative \<^verbatim>\<open>int\<close>. The sums
  that occur below 2^53 are exact in doubles. \<^verbatim>\<open>neighbor % 3\<close> and \<^verbatim>\<open>neighbor /= 3\<close> truncate and
  cannot overflow.
\<close>

definition INT_MIN :: int where
  "INT_MIN = - (2 ^ 31)"

definition INT_MAX :: int where
  "INT_MAX = 2 ^ 31 - 1"

definition c_double_to_int :: "real \<Rightarrow> int" where
  "c_double_to_int x =
     (if INT_MIN \<le> c_int_cast x \<and> c_int_cast x \<le> INT_MAX then c_int_cast x else INT_MIN)"

text \<open>The first argument of the loop function is the number of iterations that remain.\<close>

fun puNeighborToReciprocal_loop :: "nat \<Rightarrow> nat \<Rightarrow> int \<Rightarrow> int \<Rightarrow> int" where
  "puNeighborToReciprocal_loop 0 d neighbor reciprocal = reciprocal"
| "puNeighborToReciprocal_loop (Suc k) d neighbor reciprocal =
     puNeighborToReciprocal_loop k (d + 1) (neighbor sdiv 3)
       (c_double_to_int (real_of_int reciprocal + real_of_int (2 - neighbor smod 3) * 3 ^ d))"

definition puNeighborToReciprocal :: "int \<Rightarrow> nat \<Rightarrow> int" where
  "puNeighborToReciprocal neighbor nDims = puNeighborToReciprocal_loop nDims 0 neighbor 0"


section \<open>Loops and primitives\<close>

text \<open>
  \<^verbatim>\<open>for (i = start; i < stop; i += step) st = body i st\<close>, for the loops whose bounds do
  not change while they run. Every such loop of the two files has a positive constant step.
\<close>

function for_loop :: "int \<Rightarrow> int \<Rightarrow> int \<Rightarrow> (int \<Rightarrow> 'a \<Rightarrow> 'a) \<Rightarrow> 'a \<Rightarrow> 'a" where
  "for_loop i stop step body st =
     (if i < stop \<and> 0 < step then for_loop (i + step) stop step body (body i st) else st)"
  by pat_completeness auto
termination
  by (relation "measure (\<lambda>(i, stop, step, body, st). nat (stop - i))") auto

declare for_loop.simps [simp del]

text \<open>The same with a counter that is a natural number and step 1.\<close>

function for_nat :: "nat \<Rightarrow> nat \<Rightarrow> (nat \<Rightarrow> 'a \<Rightarrow> 'a) \<Rightarrow> 'a \<Rightarrow> 'a" where
  "for_nat i stop body st = (if i < stop then for_nat (Suc i) stop body (body i st) else st)"
  by pat_completeness auto
termination
  by (relation "measure (\<lambda>(i, stop, body, st). stop - i)") auto

declare for_nat.simps [simp del]

text \<open>
  Modelled from the spec: the grid utilities \<^verbatim>\<open>gZero\<close> and \<^verbatim>\<open>gMul\<close> (grid.c, outside the two
  files) set, respectively scale, each of the \<^verbatim>\<open>sizeProd[rank]\<close> elements of the value array.
\<close>

definition nElements :: "Grid \<Rightarrow> int" where
  "nElements g = sizeProd g ! rank g"

definition gZero :: "Grid \<Rightarrow> Grid" where
  "gZero g = g\<lparr>val := (\<lambda>i. if 0 \<le> i \<and> i < nElements g then 0 else val g i)\<rparr>"

definition gMul :: "Grid \<Rightarrow> real \<Rightarrow> Grid" where
  "gMul g r = g\<lparr>val := (\<lambda>i. if 0 \<le> i \<and> i < nElements g then val g i * r else val g i)\<rparr>"

text \<open>Two grids with the same descriptor arrays; only the values may differ.\<close>

definition sameShape :: "Grid \<Rightarrow> Grid \<Rightarrow> bool" where
  "sameShape g h \<longleftrightarrow>
     rank g = rank h \<and> size_g g = size_g h \<and> trueSize g = trueSize h \<and>
     nGhostLayers g = nGhostLayers h \<and> sizeProd g = sizeProd h"

text \<open>The sum of all elements of the value array.\<close>

definition gridSum :: "Grid \<Rightarrow> real" where
  "gridSum g = sum (val g) {0..<nElements g}"

text \<open>
  Modelled from the spec: \<^verbatim>\<open>gSwapGhostsDim\<close> (grid.c, outside the two files). The exchange
  along axis \<open>d\<close> receives into the ghost faces of that axis and writes nothing else: after
  it, every ghost cell of axis \<open>d\<close> holds the value delivered by the neighbour that owns the
  mirrored interior cell. What the transport delivers is the parameter \<open>recv\<close>, applied to
  the grid as it stands, the axis and the offset of the ghost cell; it stands for the
  \<^verbatim>\<open>MpiInfo\<close> argument and the peers behind it.
\<close>

type_synonym transport = "Grid \<Rightarrow> nat \<Rightarrow> int \<Rightarrow> real"

definition coordAlong :: "Grid \<Rightarrow> nat \<Rightarrow> int \<Rightarrow> int" where
  "coordAlong g d i = (i div (sizeProd g ! d)) mod (size_g g ! d)"

definition isGhostAlong :: "Grid \<Rightarrow> nat \<Rightarrow> int \<Rightarrow> bool" where
  "isGhostAlong g d i \<longleftrightarrow>
     coordAlong g d i < nGhostLayers g ! d \<or>
     coordAlong g d i \<ge> size_g g ! d - nGhostLayers g ! (rank g + d)"

definition gSwapGhostsDim :: "transport \<Rightarrow> Grid \<Rightarrow> nat \<Rightarrow> Grid" where
  "gSwapGhostsDim recv g d =
     g\<lparr>val := (\<lambda>i. if 0 \<le> i \<and> i < nElements g \<and> isGhostAlong g d i
                    then recv g d i else val g i)\<rparr>"

text \<open>
  Modelled from the spec: the transport of a single subdomain with periodic topology. The
  wrap-around neighbour is the subdomain itself, so a lower ghost cell receives the interior
  cell one interior length up the axis, an upper ghost cell the one one interior length down.
\<close>

definition periodicSelf :: transport where
  "periodicSelf g d i =
     (if coordAlong g d i < nGhostLayers g ! d
      then val g (i + (trueSize g ! d) * (sizeProd g ! d))
      else val g (i - (trueSize g ! d) * (sizeProd g ! d)))"

section \<open>multigrid.c: the Jacobi smoother\<close>

text \<open>
  One relaxation sweep of \<^verbatim>\<open>jacobian\<close>: the loop over \<^verbatim>\<open>g\<close>. The state holds the four
  neighbour indices, the scratch buffer and, for the statements about memory safety, the
  list of accesses made so far, in program order.
\<close>

datatype access = ReadPhi int | ReadRho int | WriteTemp int

definition jacobian_sweep ::
    "int list \<Rightarrow> nat \<Rightarrow> doubles \<Rightarrow> doubles \<Rightarrow> doubles \<Rightarrow> doubles \<times> access list" where
  "jacobian_sweep sp rnk phiVal rhoVal tempVal0 =
     (case for_loop 0 (sp ! rnk) 1
        (\<lambda>g (gj, gjj, gk, gkk, tempVal, trace).
           (gj + 1, gjj + 1, gk + 1, gkk + 1,
            tempVal(g := 0.25 * (phiVal gj + phiVal gjj + phiVal gk + phiVal gkk - rhoVal g)),
            trace @ [ReadPhi gj, ReadPhi gjj, ReadPhi gk, ReadPhi gkk, ReadRho g, WriteTemp g]))
        (sp ! 1, - (sp ! 1), sp ! 2, - (sp ! 2), tempVal0, [])
      of (gj, gjj, gk, gkk, tempVal, trace) \<Rightarrow> (tempVal, trace))"

text \<open>Whether an access is at an index inside an array of \<open>n\<close> elements.\<close>

definition inBounds :: "int \<Rightarrow> access \<Rightarrow> bool" where
  "inBounds n a = (case a of ReadPhi i \<Rightarrow> 0 \<le> i \<and> i < n
                          | ReadRho i \<Rightarrow> 0 \<le> i \<and> i < n
                          | WriteTemp i \<Rightarrow> 0 \<le> i \<and> i < n)"

text \<open>
  One cycle up to the pin: sweep, copy back, set the normalization node (\<open>normalize_idx\<close>, the
  local \<^verbatim>\<open>long int normalize\<close>) to 0. The scratch
  buffer comes from \<^verbatim>\<open>malloc\<close>; it starts as 0 here (each of its elements is written by
  the sweep before the copy reads it).
\<close>

definition normalize_idx :: "Grid \<Rightarrow> int" where
  "normalize_idx phi = 3 * (sizeProd phi ! 1) + 3 * (sizeProd phi ! 2)"

definition jacobian_pinned :: "Grid \<Rightarrow> Grid \<Rightarrow> Grid" where
  "jacobian_pinned rho phi =
     (let sp = sizeProd phi;
          tempVal = fst (jacobian_sweep sp (rank phi) (val phi) (val rho) (\<lambda>_. 0));
          phiVal1 = for_loop 0 (sp ! rank phi) 1 (\<lambda>q phiVal. phiVal(q := tempVal q)) (val phi);
          phiVal2 = phiVal1(normalize_idx phi := 0)
      in phi\<lparr>val := phiVal2\<rparr>)"

text \<open>The rest of the cycle: the ghost exchange along every spatial axis.\<close>

definition jacobian_cycle :: "transport \<Rightarrow> Grid \<Rightarrow> Grid \<Rightarrow> Grid" where
  "jacobian_cycle recv rho phi =
     for_nat 1 (rank phi) (\<lambda>d g. gSwapGhostsDim recv g d) (jacobian_pinned rho phi)"

definition jacobian :: "transport \<Rightarrow> Grid \<Rightarrow> Grid \<Rightarrow> int \<Rightarrow> Grid" where
  "jacobian recv phi rho nCycles = for_loop 0 nCycles 1 (\<lambda>c. jacobian_cycle recv rho) phi"

section \<open>pusher.c: populations\<close>

text \<open>
  \<^verbatim>\<open>Population\<close> and \<^verbatim>\<open>MpiInfo\<close> (declared in pinc.h): the fields the pusher reads and
  writes. \<open>emigrants n\<close> is what has been written to the send buffer \<^verbatim>\<open>emigrants[n]\<close>
  through its cursor \<^verbatim>\<open>emigrantsDummy[n]\<close> since the cursor was last reset; the capacity of
  the buffers is not modelled (the code does not check it either).
\<close>

record Population =
  nSpecies :: nat
  nDims :: nat
  pos :: doubles
  vel :: doubles
  iStart :: "int list"
  iStop :: "int list"
  renormE :: "real list"
  renormRho :: "real list"

record MpiInfo =
  thresholds :: "real list"
  neighborhoodCenter :: int
  nNeighbors :: nat
  nEmigrants :: longs
  emigrants :: "int \<Rightarrow> real list"

subsection \<open>puBndPeriodic\<close>

text \<open>The two conditional statements applied to the coordinate at offset \<open>q\<close>, in order.\<close>

definition puBndPeriodic_coord :: "int \<Rightarrow> int \<Rightarrow> doubles \<Rightarrow> doubles" where
  "puBndPeriodic_coord sz q pos0 =
     (let pos1 = (if pos0 q > real_of_int sz then pos0(q := pos0 q - real_of_int sz) else pos0);
          pos2 = (if pos1 q < 0 then pos1(q := pos1 q + real_of_int sz) else pos1)
      in pos2)"

definition puBndPeriodic :: "Population \<Rightarrow> Grid \<Rightarrow> Population" where
  "puBndPeriodic pop grid =
     for_nat 0 (nSpecies pop)
       (\<lambda>s pop1.
          for_loop (iStart pop1 ! s) (iStop pop1 ! s) 1
            (\<lambda>i pop2.
               for_nat 0 (nDims pop)
                 (\<lambda>d pop3. pop3\<lparr>pos := puBndPeriodic_coord (size_g grid ! (d + 1))
                                             (i * int (nDims pop) + int d) (pos pop3)\<rparr>)
                 pop2)
            pop1)
       pop"

subsection \<open>puInterp3D1 and puAcc3D1\<close>

text \<open>
  \<^verbatim>\<open>puInterp3D1\<close>: \<open>pos3\<close> is the pointer to the three coordinates of the particle,
  and the value is \<^verbatim>\<open>result[v]\<close>.
\<close>

definition puInterp3D1 :: "doubles \<Rightarrow> doubles \<Rightarrow> int list \<Rightarrow> int \<Rightarrow> real" where
  "puInterp3D1 pos3 fld sp v =
     (let j = c_int_cast (pos3 0);
          k = c_int_cast (pos3 1);
          l = c_int_cast (pos3 2);
          x = pos3 0 - real_of_int j;
          y = pos3 1 - real_of_int k;
          z = pos3 2 - real_of_int l;
          xcomp = 1 - x;
          ycomp = 1 - y;
          zcomp = 1 - z;
          p = j * 3 + k * (sp ! 2) + l * (sp ! 3);
          pj = p + 3;
          pk = p + sp ! 2;
          pjk = pk + 3;
          pl = p + sp ! 3;
          pjl = pl + 3;
          pkl = pl + sp ! 2;
          pjkl = pkl + 3
      in zcomp * (ycomp * (xcomp * fld (p + v) + x * fld (pj + v))
                  + y * (xcomp * fld (pk + v) + x * fld (pjk + v)))
         + z * (ycomp * (xcomp * fld (pl + v) + x * fld (pjl + v))
                + y * (xcomp * fld (pkl + v) + x * fld (pjkl + v))))"

text \<open>Pointer arithmetic: \<^verbatim>\<open>&a[p]\<close>.\<close>

definition at_offset :: "(int \<Rightarrow> 'a) \<Rightarrow> int \<Rightarrow> (int \<Rightarrow> 'a)" where
  "at_offset a p = (\<lambda>i. a (p + i))"

text \<open>
  The offsets of the eight corner nodes that \<^verbatim>\<open>puInterp3D1\<close> reads (each with its three
  components at the offsets \<open>+0\<close>, \<open>+1\<close>, \<open>+2\<close>), and whether all of them lie inside the
  value array of the field.
\<close>

definition puInterp3D1_nodes :: "doubles \<Rightarrow> int list \<Rightarrow> int list" where
  "puInterp3D1_nodes pos3 sp =
     (let j = c_int_cast (pos3 0);
          k = c_int_cast (pos3 1);
          l = c_int_cast (pos3 2);
          p = j * 3 + k * (sp ! 2) + l * (sp ! 3);
          pj = p + 3;
          pk = p + sp ! 2;
          pjk = pk + 3;
          pl = p + sp ! 3;
          pjl = pl + 3;
          pkl = pl + sp ! 2;
          pjkl = pkl + 3
      in [p, pj, pk, pjk, pl, pjl, pkl, pjkl])"

definition nodesInsideE :: "Grid \<Rightarrow> doubles \<Rightarrow> bool" where
  "nodesInsideE E pos3 =
     list_all (\<lambda>q. 0 \<le> q \<and> q + 2 < nElements E) (puInterp3D1_nodes pos3 (sizeProd E))"

text \<open>The body of the particle loop of \<^verbatim>\<open>puAcc3D1\<close>, at offset \<open>p\<close>.\<close>

definition puAcc3D1_particle :: "doubles \<Rightarrow> Grid \<Rightarrow> int \<Rightarrow> doubles \<Rightarrow> doubles" where
  "puAcc3D1_particle ps E p vel0 =
     (let dv = puInterp3D1 (at_offset ps p) (val E) (sizeProd E)
      in for_loop 0 3 1 (\<lambda>d vl. vl(p + d := vl (p + d) + dv d)) vel0)"

definition puAcc3D1 :: "Population \<Rightarrow> Grid \<Rightarrow> Population \<times> Grid" where
  "puAcc3D1 pop E =
     for_nat 0 (nSpecies pop)
       (\<lambda>s (pop1, E1).
          (let pStart = (iStart pop1 ! s) * 3;
               pStop = (iStop pop1 ! s) * 3;
               vel1 = for_loop pStart pStop 3 (puAcc3D1_particle (pos pop1) E1) (vel pop1)
           in (pop1\<lparr>vel := vel1\<rparr>, gMul E1 (renormE pop1 ! s))))
       (pop, E)"

subsection \<open>puDistr3D1\<close>

text \<open>The body of the particle loop of \<^verbatim>\<open>puDistr3D1\<close>, for particle \<open>i\<close>.\<close>

definition puDistr3D1_particle :: "doubles \<Rightarrow> int list \<Rightarrow> int \<Rightarrow> doubles \<Rightarrow> doubles" where
  "puDistr3D1_particle ps sp i val0 =
     (let pos3 = at_offset ps (3 * i);
          j = c_int_cast (pos3 0);
          k = c_int_cast (pos3 1);
          l = c_int_cast (pos3 2);
          x = pos3 0 - real_of_int j;
          y = pos3 1 - real_of_int k;
          z = pos3 2 - real_of_int l;
          xcomp = 1 - x;
          ycomp = 1 - y;
          zcomp = 1 - z;
          p = j + k * (sp ! 2) + l * (sp ! 3);
          pj = p + 1;
          pk = p + sp ! 2;
          pjk = pk + 1;
          pl = p + sp ! 3;
          pjl = pl + 1;
          pkl = pl + sp ! 2;
          pjkl = pkl + 1;
          val1 = val0(p := val0 p + xcomp * ycomp * zcomp);
          val2 = val1(pj := val1 pj + x * ycomp * zcomp);
          val3 = val2(pk := val2 pk + xcomp * y * zcomp);
          val4 = val3(pjk := val3 pjk + x * y * zcomp);
          val5 = val4(pl := val4 pl + xcomp * ycomp * z);
          val6 = val5(pjl := val5 pjl + x * ycomp * z);
          val7 = val6(pkl := val6 pkl + xcomp * y * z);
          val8 = val7(pjkl := val7 pjkl + x * y * z)
      in val8)"

text \<open>
  The offsets of the eight nodes that the body writes for particle \<open>i\<close>, and whether all of
  them lie inside the value array of the grid.
\<close>

definition puDistr3D1_nodes :: "doubles \<Rightarrow> int list \<Rightarrow> int \<Rightarrow> int list" where
  "puDistr3D1_nodes ps sp i =
     (let pos3 = at_offset ps (3 * i);
          j = c_int_cast (pos3 0);
          k = c_int_cast (pos3 1);
          l = c_int_cast (pos3 2);
          p = j + k * (sp ! 2) + l * (sp ! 3);
          pj = p + 1;
          pk = p + sp ! 2;
          pjk = pk + 1;
          pl = p + sp ! 3;
          pjl = pl + 1;
          pkl = pl + sp ! 2;
          pjkl = pkl + 1
      in [p, pj, pk, pjk, pl, pjl, pkl, pjkl])"

definition nodesInsideRho :: "Grid \<Rightarrow> doubles \<Rightarrow> int \<Rightarrow> bool" where
  "nodesInsideRho rho ps i =
     list_all (\<lambda>q. 0 \<le> q \<and> q < nElements rho) (puDistr3D1_nodes ps (sizeProd rho) i)"

definition puDistr3D1 :: "Population \<Rightarrow> Grid \<Rightarrow> Grid" where
  "puDistr3D1 pop rho =
     for_nat 0 (nSpecies pop)
       (\<lambda>s rho1.
          gMul (rho1\<lparr>val := for_loop (iStart pop ! s) (iStop pop ! s) 1
                               (puDistr3D1_particle (pos pop) (sizeProd rho1)) (val rho1)\<rparr>)
               (renormRho pop ! s))
       (gZero rho)"

subsection \<open>puExtractEmigrants3D and puExtractEmigrantsND\<close>

text \<open>The neighbour index of the particle at offset \<open>p\<close>, as \<^verbatim>\<open>puExtractEmigrants3D\<close> computes it.\<close>

definition neighbor3D :: "real list \<Rightarrow> doubles \<Rightarrow> int \<Rightarrow> int" where
  "neighbor3D thr ps p =
     (let lx = thr ! 0; ly = thr ! 1; lz = thr ! 2;
          ux = thr ! 3; uy = thr ! 4; uz = thr ! 5;
          x = ps p; y = ps (p + 1); z = ps (p + 2);
          nx = - c_bool (x < lx) + c_bool (x \<ge> ux);
          ny = - c_bool (y < ly) + c_bool (y \<ge> uy);
          nz = - c_bool (z < lz) + c_bool (z \<ge> uz)
      in 13 + nx + 3 * ny + 9 * nz)"

text \<open>
  The statements of the branch \<^verbatim>\<open>ne != neighborhoodCenter\<close>, apart from the updates of the
  loop variables \<^verbatim>\<open>p\<close> and \<^verbatim>\<open>pStop\<close>: buffer the particle, count it, overwrite it with the
  last live particle of the species, shrink the species.
\<close>

definition emigrate3D ::
    "nat \<Rightarrow> nat \<Rightarrow> int \<Rightarrow> int \<Rightarrow> int \<Rightarrow> Population \<times> MpiInfo \<Rightarrow> Population \<times> MpiInfo" where
  "emigrate3D nSp s ne p pStop st =
     (case st of (pop, mpi) \<Rightarrow>
       (let x = pos pop p; y = pos pop (p + 1); z = pos pop (p + 2);
            em = (emigrants mpi)(ne := emigrants mpi ne
                    @ [x, y, z, vel pop p, vel pop (p + 1), vel pop (p + 2)]);
            nE = (nEmigrants mpi)(ne * int nSp + int s := nEmigrants mpi (ne * int nSp + int s) + 1);
            pos1 = (pos pop)(p := pos pop (pStop - 3));
            pos2 = pos1(p + 1 := pos1 (pStop - 2));
            pos3 = pos2(p + 2 := pos2 (pStop - 1));
            vel1 = (vel pop)(p := vel pop (pStop - 3));
            vel2 = vel1(p + 1 := vel1 (pStop - 2));
            vel3 = vel2(p + 2 := vel2 (pStop - 1))
        in (pop\<lparr>pos := pos3, vel := vel3, iStop := (iStop pop)[s := iStop pop ! s - 1]\<rparr>,
            mpi\<lparr>nEmigrants := nE, emigrants := em\<rparr>)))"

text \<open>
  The particle loop. In the emigrating branch the code sets \<^verbatim>\<open>pStop -= 3; p -= 3\<close> and the
  loop header then adds 3 to \<^verbatim>\<open>p\<close>.
\<close>

function puExtractEmigrants3D_loop ::
    "real list \<Rightarrow> int \<Rightarrow> nat \<Rightarrow> nat \<Rightarrow> int \<Rightarrow> int \<Rightarrow> Population \<times> MpiInfo
     \<Rightarrow> Population \<times> MpiInfo" where
  "puExtractEmigrants3D_loop thr center nSp s p pStop st =
     (if p < pStop then
        (if neighbor3D thr (pos (fst st)) p \<noteq> center
         then puExtractEmigrants3D_loop thr center nSp s ((p - 3) + 3) (pStop - 3)
                (emigrate3D nSp s (neighbor3D thr (pos (fst st)) p) p pStop st)
         else puExtractEmigrants3D_loop thr center nSp s (p + 3) pStop st)
      else st)"
  by pat_completeness auto
termination
  by (relation "measure (\<lambda>(thr, center, nSp, s, p, pStop, st). nat (pStop - p))") auto

declare puExtractEmigrants3D_loop.simps [simp del]

text \<open>
  Modelled from the spec: \<^verbatim>\<open>alSetAll\<close> (an array utility outside the two files) sets the first
  \<open>n\<close> elements of an array of longs to a value.
\<close>

definition alSetAll :: "longs \<Rightarrow> int \<Rightarrow> int \<Rightarrow> longs" where
  "alSetAll a n v = (\<lambda>i. if 0 \<le> i \<and> i < n then v else a i)"

text \<open>The reset of the buffer cursors and of the counts at the start of an extraction.\<close>

definition resetEmigrants :: "nat \<Rightarrow> MpiInfo \<Rightarrow> MpiInfo" where
  "resetEmigrants nSp mpi =
     mpi\<lparr>emigrants := for_loop 0 (int (nNeighbors mpi)) 1 (\<lambda>ne em. em(ne := [])) (emigrants mpi),
         nEmigrants := alSetAll (nEmigrants mpi) (int nSp * int (nNeighbors mpi)) 0\<rparr>"

definition puExtractEmigrants3D :: "Population \<Rightarrow> MpiInfo \<Rightarrow> Population \<times> MpiInfo" where
  "puExtractEmigrants3D pop mpi =
     for_nat 0 (nSpecies pop)
       (\<lambda>s st. puExtractEmigrants3D_loop (thresholds mpi) (neighborhoodCenter mpi) (nSpecies pop) s
                  ((iStart (fst st) ! s) * 3) ((iStop (fst st) ! s) * 3) st)
       (pop, resetEmigrants (nSpecies pop) mpi)"

text \<open>
  The neighbour index in \<open>nD\<close> dimensions: the loop over \<^verbatim>\<open>d\<close> from \<^verbatim>\<open>nDims-1\<close> down to 0. The
  first argument is \<^verbatim>\<open>d+1\<close>.
\<close>

fun neighborND_loop :: "nat \<Rightarrow> nat \<Rightarrow> real list \<Rightarrow> doubles \<Rightarrow> int \<Rightarrow> int \<Rightarrow> int" where
  "neighborND_loop 0 nD thr ps p ne = ne"
| "neighborND_loop (Suc d) nD thr ps p ne =
     neighborND_loop d nD thr ps p
       (ne * 3 + (1 - c_bool (ps (p + int d) < thr ! d) + c_bool (ps (p + int d) \<ge> thr ! (nD + d))))"

definition neighborND :: "nat \<Rightarrow> real list \<Rightarrow> doubles \<Rightarrow> int \<Rightarrow> int" where
  "neighborND nD thr ps p = neighborND_loop nD nD thr ps p 0"

definition emigrateND ::
    "nat \<Rightarrow> nat \<Rightarrow> nat \<Rightarrow> int \<Rightarrow> int \<Rightarrow> int \<Rightarrow> Population \<times> MpiInfo \<Rightarrow> Population \<times> MpiInfo" where
  "emigrateND nD nSp s ne p pStop st =
     (case st of (pop, mpi) \<Rightarrow>
       (let em1 = for_nat 0 nD (\<lambda>d em. em(ne := em ne @ [pos pop (p + int d)])) (emigrants mpi);
            em2 = for_nat 0 nD (\<lambda>d em. em(ne := em ne @ [vel pop (p + int d)])) em1;
            nE = (nEmigrants mpi)(ne * int nSp + int s := nEmigrants mpi (ne * int nSp + int s) + 1);
            pos1 = for_nat 0 nD (\<lambda>d ps. ps(p + int d := ps (pStop - int nD + int d))) (pos pop);
            vel1 = for_nat 0 nD (\<lambda>d vl. vl(p + int d := vl (pStop - int nD + int d))) (vel pop)
        in (pop\<lparr>pos := pos1, vel := vel1, iStop := (iStop pop)[s := iStop pop ! s - 1]\<rparr>,
            mpi\<lparr>nEmigrants := nE, emigrants := em2\<rparr>)))"

text \<open>
  The particle loop in \<open>nD\<close> dimensions. With \<^verbatim>\<open>nDims = 0\<close> both bounds are 0 and the loop is
  not entered; the guard \<open>0 < nD\<close> says so for every pair of bounds.
\<close>

function puExtractEmigrantsND_loop ::
    "nat \<Rightarrow> real list \<Rightarrow> int \<Rightarrow> nat \<Rightarrow> nat \<Rightarrow> int \<Rightarrow> int \<Rightarrow> Population \<times> MpiInfo
     \<Rightarrow> Population \<times> MpiInfo" where
  "puExtractEmigrantsND_loop nD thr center nSp s p pStop st =
     (if p < pStop \<and> 0 < nD then
        (if neighborND nD thr (pos (fst st)) p \<noteq> center
         then puExtractEmigrantsND_loop nD thr center nSp s ((p - int nD) + int nD) (pStop - int nD)
                (emigrateND nD nSp s (neighborND nD thr (pos (fst st)) p) p pStop st)
         else puExtractEmigrantsND_loop nD thr center nSp s (p + int nD) pStop st)
      else st)"
  by pat_completeness auto
termination
  by (relation "measure (\<lambda>(nD, thr, center, nSp, s, p, pStop, st). nat (pStop - p))") auto

declare puExtractEmigrantsND_loop.simps [simp del]

definition puExtractEmigrantsND :: "Population \<Rightarrow> MpiInfo \<Rightarrow> Population \<times> MpiInfo" where
  "puExtractEmigrantsND pop mpi =
     for_nat 0 (nSpecies pop)
       (\<lambda>s st. puExtractEmigrantsND_loop (nDims pop) (thresholds mpi) (neighborhoodCenter mpi)
                  (nSpecies pop) s
                  ((iStart (fst st) ! s) * int (nDims pop)) ((iStop (fst st) ! s) * int (nDims pop)) st)
       (pop, resetEmigrants (nSpecies pop) mpi)"

subsection \<open>Counts and thresholds\<close>

text \<open>
  The number of emigrants of species \<open>s\<close> recorded over all neighbours:
  the sum over \<open>n\<close> of \<^verbatim>\<open>nEmigrants[n*nSpecies+s]\<close>.
\<close>

definition emigrantCount :: "MpiInfo \<Rightarrow> nat \<Rightarrow> nat \<Rightarrow> int" where
  "emigrantCount mpi nSp s = (\<Sum>n = 0..<int (nNeighbors mpi). nEmigrants mpi (n * int nSp + int s))"

text \<open>The live count of species \<open>s\<close> plus its recorded emigrants.\<close>

definition balance :: "nat \<Rightarrow> Population \<times> MpiInfo \<Rightarrow> nat \<Rightarrow> int" where
  "balance nSp st s = iStop (fst st) ! s + emigrantCount (snd st) nSp s"

text \<open>
  A particle at offset \<open>p\<close> that has crossed no migration threshold: every coordinate is at
  least the lower and below the upper threshold of its axis.
\<close>

definition withinThresholds3D :: "real list \<Rightarrow> doubles \<Rightarrow> int \<Rightarrow> bool" where
  "withinThresholds3D thr ps p \<longleftrightarrow>
     thr ! 0 \<le> ps p \<and> ps p < thr ! 3 \<and>
     thr ! 1 \<le> ps (p + 1) \<and> ps (p + 1) < thr ! 4 \<and>
     thr ! 2 \<le> ps (p + 2) \<and> ps (p + 2) < thr ! 5"

definition withinThresholdsND :: "nat \<Rightarrow> real list \<Rightarrow> doubles \<Rightarrow> int \<Rightarrow> bool" where
  "withinThresholdsND nD thr ps p =
     list_all (\<lambda>d. thr ! d \<le> ps (p + int d) \<and> ps (p + int d) < thr ! (nD + d)) [0..<nD]"

section \<open>multigrid.c: restriction and prolongation\<close>

text \<open>
  The loops below advance their array indices by increments, as the code does; the loop
  counters only count. The state of a loop is the tuple of the indices and the value array
  that is written.
\<close>

definition halfWeightRestrict2D :: "Grid \<Rightarrow> Grid \<Rightarrow> Grid" where
  "halfWeightRestrict2D fine coarse =
     (let fVal = val fine; fsp = sizeProd fine; rnk = rank fine; ngl = nGhostLayers fine;
          csp = sizeProd coarse; cSize = size_g coarse;
          c = csp ! 2 + csp ! 1;
          f = fsp ! 2 + fsp ! 1;
          fj = f + fsp ! 1;
          fjj = f - fsp ! 1;
          fk = f + fsp ! 2;
          fkk = f - fsp ! 2;
          cKEdgeInc = ngl ! 2 + ngl ! (rnk + 2);
          fKEdgeInc = cKEdgeInc + fsp ! 2
      in case
           for_loop (ngl ! 2) (cSize ! 2 - ngl ! (rnk + 2)) 1
             (\<lambda>k st.
                case for_loop (ngl ! 1) (cSize ! 1 - ngl ! (rnk + 1)) 1
                       (\<lambda>j (c, f, fj, fjj, fk, fkk, cVal).
                          (c + 1, f + 2, fj + 2, fjj + 2, fk + 2, fkk + 2,
                           cVal(c := 0.125 * (4 * fVal f + fVal fj + fVal fjj + fVal fk + fVal fkk))))
                       st
                of (c, f, fj, fjj, fk, fkk, cVal) \<Rightarrow>
                   (c + cKEdgeInc, f + fKEdgeInc, fj + fKEdgeInc, fjj + fKEdgeInc,
                    fk + fKEdgeInc, fkk + fKEdgeInc, cVal))
             (c, f, fj, fjj, fk, fkk, val coarse)
         of (c, f, fj, fjj, fk, fkk, cVal) \<Rightarrow> coarse\<lparr>val := cVal\<rparr>)"

definition halfWeightRestrict3D :: "Grid \<Rightarrow> Grid \<Rightarrow> Grid" where
  "halfWeightRestrict3D fine coarse =
     (let fVal = val fine; fsp = sizeProd fine; rnk = rank fine; ngl = nGhostLayers fine;
          csp = sizeProd coarse; cTrueSize = trueSize coarse;
          c = csp ! 1 * ngl ! 1 + csp ! 2 * ngl ! 2 + csp ! 3 * ngl ! 3;
          f = fsp ! 1 * ngl ! 1 + fsp ! 2 * ngl ! 2 + fsp ! 3 * ngl ! 3;
          fj = f + fsp ! 1;
          fjj = f - fsp ! 1;
          fk = f + fsp ! 2;
          fkk = f - fsp ! 2;
          fl = f + fsp ! 3;
          fll = f - fsp ! 3;
          cKEdgeInc = ngl ! 2 + ngl ! (rnk + 2);
          fKEdgeInc = ngl ! 2 + ngl ! (rnk + 2) + fsp ! 2;
          cLEdgeInc = (ngl ! 3 + ngl ! (rnk + 3)) * csp ! 2;
          fLEdgeInc = (ngl ! 3 + ngl ! (rnk + 3)) * fsp ! 2 + fsp ! 3;
          coeff = 1 / 12
      in case
           for_loop 0 (cTrueSize ! 3) 1
             (\<lambda>l st3.
                case for_loop 0 (cTrueSize ! 2) 1
                       (\<lambda>k st2.
                          case for_loop 0 (cTrueSize ! 1) 1
                                 (\<lambda>j (c, f, fj, fjj, fk, fkk, fl, fll, cVal).
                                    (c + 1, f + 2, fj + 2, fjj + 2, fk + 2, fkk + 2, fl + 2, fll + 2,
                                     cVal(c := coeff * (6 * fVal f + fVal fj + fVal fjj + fVal fk
                                                        + fVal fkk + fVal fl + fVal fll))))
                                 st2
                          of (c, f, fj, fjj, fk, fkk, fl, fll, cVal) \<Rightarrow>
                             (c + cKEdgeInc, f + fKEdgeInc, fj + fKEdgeInc, fjj + fKEdgeInc,
                              fk + fKEdgeInc, fkk + fKEdgeInc, fl + fKEdgeInc, fll + fKEdgeInc, cVal))
                       st3
                of (c, f, fj, fjj, fk, fkk, fl, fll, cVal) \<Rightarrow>
                   (c + cLEdgeInc, f + fLEdgeInc, fj + fLEdgeInc, fjj + fLEdgeInc,
                    fk + fLEdgeInc, fkk + fLEdgeInc, fl + fLEdgeInc, fll + fLEdgeInc, cVal))
             (c, f, fj, fjj, fk, fkk, fl, fll, val coarse)
         of (c, f, fj, fjj, fk, fkk, fl, fll, cVal) \<Rightarrow> coarse\<lparr>val := cVal\<rparr>)"

text \<open>
  The innermost statements of the interpolation passes: \<^verbatim>\<open>fVal[f] += 0.5*(...)\<close> in two
  dimensions, \<^verbatim>\<open>fVal[f] = 0.5*(...)\<close> in three; both then advance the three indices by 2.
\<close>

definition interpAdd :: "int \<times> int \<times> int \<times> doubles \<Rightarrow> int \<times> int \<times> int \<times> doubles" where
  "interpAdd st = (case st of (f, fNext, fPrev, fVal) \<Rightarrow>
     (f + 2, fNext + 2, fPrev + 2, fVal(f := fVal f + 0.5 * (fVal fPrev + fVal fNext))))"

definition interpSet :: "int \<times> int \<times> int \<times> doubles \<Rightarrow> int \<times> int \<times> int \<times> doubles" where
  "interpSet st = (case st of (f, fNext, fPrev, fVal) \<Rightarrow>
     (f + 2, fNext + 2, fPrev + 2, fVal(f := 0.5 * (fVal fPrev + fVal fNext))))"

definition advance :: "int \<Rightarrow> int \<times> int \<times> int \<times> doubles \<Rightarrow> int \<times> int \<times> int \<times> doubles" where
  "advance n st = (case st of (f, fNext, fPrev, fVal) \<Rightarrow> (f + n, fNext + n, fPrev + n, fVal))"

definition bilinearProlong2D :: "transport \<Rightarrow> Grid \<Rightarrow> Grid \<Rightarrow> Grid" where
  "bilinearProlong2D recv fine coarse =
     (let fsp = sizeProd fine; fSize = size_g fine; rnk = rank fine; ngl = nGhostLayers fine;
          cVal = val coarse; csp = sizeProd coarse; cSize = size_g coarse;
          f = fsp ! 2 + fsp ! 1;
          c = csp ! 2 + csp ! 1;
          cKEdgeInc = ngl ! 2 + ngl ! (rnk + 2);
          fKEdgeInc = cKEdgeInc + fsp ! 2;
          fVal1 = (case
             for_loop (ngl ! 2) (cSize ! 2 - ngl ! (rnk + 2)) 1
               (\<lambda>k st.
                  case for_loop (ngl ! 1) (cSize ! 1 - ngl ! (rnk + 1)) 1
                         (\<lambda>j (c, f, fVal). (c + 1, f + 2, fVal(f := cVal c))) st
                  of (c, f, fVal) \<Rightarrow> (c + cKEdgeInc, f + fKEdgeInc, fVal))
               (c, f, val fine)
             of (c, f, fVal) \<Rightarrow> fVal);
          fine1 = gSwapGhostsDim recv (fine\<lparr>val := fVal1\<rparr>) 2;
          f = fsp ! 1;
          fNext = f + fsp ! 2;
          fPrev = f - fsp ! 2;
          fVal2 = (case
             for_loop 0 (fSize ! 2) 2
               (\<lambda>k st. advance (fsp ! 2) (for_loop 0 (fSize ! 1) 2 (\<lambda>j. interpAdd) st))
               (f, fNext, fPrev, val fine1)
             of (f, fNext, fPrev, fVal) \<Rightarrow> fVal);
          fine2 = gSwapGhostsDim recv (fine1\<lparr>val := fVal2\<rparr>) 1;
          f = 0;
          fNext = f + fsp ! 1;
          fPrev = f - fsp ! 1;
          fVal3 = (case
             for_loop 0 (fSize ! 2) 1
               (\<lambda>k st. for_loop 0 (fSize ! 1) 2 (\<lambda>j. interpAdd) st)
               (f, fNext, fPrev, val fine2)
             of (f, fNext, fPrev, fVal) \<Rightarrow> fVal)
      in fine2\<lparr>val := fVal3\<rparr>)"

definition bilinearProlong3D :: "transport \<Rightarrow> Grid \<Rightarrow> Grid \<Rightarrow> Grid" where
  "bilinearProlong3D recv fine coarse =
     (let fsp = sizeProd fine; fSize = size_g fine; fTrueSize = trueSize fine;
          rnk = rank fine; ngl = nGhostLayers fine;
          cVal = val coarse; csp = sizeProd coarse; cTrueSize = trueSize coarse;
          f = fsp ! 1 + fsp ! 2 + fsp ! 3;
          c = csp ! 1 + csp ! 2 + csp ! 3;
          cKEdgeInc = ngl ! 2 + ngl ! (rnk + 2);
          fKEdgeInc = cKEdgeInc + fsp ! 2;
          cLEdgeInc = (ngl ! 3 + ngl ! (rnk + 3)) * csp ! 2;
          fLEdgeInc = (ngl ! 3 + ngl ! (rnk + 3)) * fsp ! 2 + fsp ! 3;
          fVal1 = (case
             for_loop 0 (cTrueSize ! 3) 1
               (\<lambda>l st3.
                  case for_loop 0 (cTrueSize ! 2) 1
                         (\<lambda>k st2.
                            case for_loop 0 (cTrueSize ! 1) 1
                                   (\<lambda>j (c, f, fVal). (c + 1, f + 2, fVal(f := cVal c))) st2
                            of (c, f, fVal) \<Rightarrow> (c + cKEdgeInc, f + fKEdgeInc, fVal))
                         st3
                  of (c, f, fVal) \<Rightarrow> (c + cLEdgeInc, f + fLEdgeInc, fVal))
               (c, f, val fine)
             of (c, f, fVal) \<Rightarrow> fVal);
          fine1 = gSwapGhostsDim recv (fine\<lparr>val := fVal1\<rparr>) 3;
          f = fsp ! 1 + fsp ! 2 + 2 * fsp ! 3;
          fNext = f + fsp ! 3;
          fPrev = f - fsp ! 3;
          fVal2 = (case
             for_loop 0 (fTrueSize ! 3) 2
               (\<lambda>l st3. advance (fsp ! 3)
                  (for_loop 0 (fSize ! 2) 2
                     (\<lambda>k st2. advance (fsp ! 2) (for_loop 0 (fSize ! 1) 2 (\<lambda>j. interpSet) st2))
                     st3))
               (f, fNext, fPrev, val fine1)
             of (f, fNext, fPrev, fVal) \<Rightarrow> fVal);
          fine2 = gSwapGhostsDim recv (fine1\<lparr>val := fVal2\<rparr>) 2;
          f = fsp ! 1 + 2 * fsp ! 2 + fsp ! 3;
          fNext = f + fsp ! 2;
          fPrev = f - fsp ! 2;
          fVal3 = (case
             for_loop 0 (fTrueSize ! 3) 1
               (\<lambda>l st3.
                  for_loop 0 (fSize ! 2) 2
                    (\<lambda>k st2. advance (fsp ! 2) (for_loop 0 (fSize ! 1) 2 (\<lambda>j. interpSet) st2))
                    st3)
               (f, fNext, fPrev, val fine2)
             of (f, fNext, fPrev, fVal) \<Rightarrow> fVal);
          fine3 = gSwapGhostsDim recv (fine2\<lparr>val := fVal3\<rparr>) 1;
          f = 2 * fsp ! 1 + fsp ! 2 + fsp ! 3;
          fNext = f + fsp ! 1;
          fPrev = f - fsp ! 1;
          fVal4 = (case
             for_loop 0 (fTrueSize ! 3) 1
               (\<lambda>l st3. advance (2 * fsp ! 2)
                  (for_loop 0 (fTrueSize ! 2) 1
                     (\<lambda>k st2. for_loop 0 (fSize ! 1) 2 (\<lambda>j. interpSet) st2)
                     st3))
               (f, fNext, fPrev, val fine3)
             of (f, fNext, fPrev, fVal) \<Rightarrow> fVal)
      in fine3\<lparr>val := fVal4\<rparr>)"

section \<open>Concrete inputs\<close>

text \<open>
  The finest grids used below are two-dimensional scalar fields: rank 3 with a leading axis of
  length 1 and one ghost layer on either side of both spatial axes.
\<close>

definition grid2D :: "int \<Rightarrow> doubles \<Rightarrow> Grid" where
  "grid2D n v = \<lparr> rank = 3, size_g = [1, n + 2, n + 2], trueSize = [1, n, n],
                  nGhostLayers = [0, 1, 1, 0, 1, 1],
                  sizeProd = [1, 1, n + 2, (n + 2) * (n + 2)], val = v \<rparr>"

definition ini_levels :: "int \<Rightarrow> MgIni" where
  "ini_levels n = \<lparr> mgLevels = n, mgCycles = 1, ini_nPreSmooth = 2, ini_nPostSmooth = 2,
       ini_nCoarseSolve = 2, ini_preSmooth = ''gaussSeidel'', ini_postSmooth = ''gaussSeidel'',
       ini_coarseSolv = ''gaussSeidel'', ini_restrictor = ''halfWeight'',
       ini_prolongator = ''bilinear'' \<rparr>"

text \<open>A three-dimensional scalar grid of \<open>n\<close> interior nodes per axis, one ghost layer per side.\<close>

definition grid3D :: "int \<Rightarrow> doubles \<Rightarrow> Grid" where
  "grid3D n v = \<lparr> rank = 4, size_g = [1, n + 2, n + 2, n + 2], trueSize = [1, n, n, n],
                  nGhostLayers = [0, 1, 1, 1, 0, 1, 1, 1],
                  sizeProd = [1, 1, n + 2, (n + 2) * (n + 2), (n + 2) * (n + 2) * (n + 2)],
                  val = v \<rparr>"

text \<open>A store that holds the elements of a list at the offsets from 0 and a default elsewhere.\<close>

definition store :: "'a list \<Rightarrow> 'a \<Rightarrow> int \<Rightarrow> 'a" where
  "store xs dflt i = (if 0 \<le> i \<and> i < int (length xs) then xs ! nat i else dflt)"

text \<open>
  A population of one species in three dimensions, given by the interleaved coordinates and
  velocities of its particles; both rescaling factors are 2.
\<close>

definition onePop :: "real list \<Rightarrow> real list \<Rightarrow> Population" where
  "onePop ps vs = \<lparr> nSpecies = 1, nDims = 3, pos = store ps 0, vel = store vs 0,
       iStart = [0], iStop = [int (length ps) div 3], renormE = [2], renormRho = [2] \<rparr>"

text \<open>A right-hand side that is \<open>-4\<close> at offset 5 and 0 elsewhere.\<close>

definition cornerRho :: doubles where
  "cornerRho = (\<lambda>i. if i = 5 then - 4 else 0)"

text \<open>
  The constant field 1 on a fine grid of 4 by 4 interior nodes, ghosts included, and its
  restriction to the next level of the hierarchy.
\<close>

definition fineC :: Grid where
  "fineC = grid2D 4 (\<lambda>_. 1)"

definition coarseC :: Grid where
  "coarseC = halfWeightRestrict2D fineC (mgAllocSubGrids fineC 2 ! 1)"

text \<open>
  A three-dimensional vector field of \<open>n\<close> nodes per axis without ghost layers: rank 4 with
  a leading axis of length 3.
\<close>

definition gridE :: "int \<Rightarrow> doubles \<Rightarrow> Grid" where
  "gridE n v = \<lparr> rank = 4, size_g = [3, n, n, n], trueSize = [3, n, n, n],
                 nGhostLayers = [0, 0, 0, 0, 0, 0, 0, 0],
                 sizeProd = [1, 3, 3 * n, 3 * n * n, 3 * n * n * n], val = v \<rparr>"

text \<open>
  A population of two species in three dimensions: the first particle belongs to species 0,
  the others to species 1; the rescaling factors are 2 and 3.
\<close>

definition twoPop :: "real list \<Rightarrow> real list \<Rightarrow> Population" where
  "twoPop ps vs = \<lparr> nSpecies = 2, nDims = 3, pos = store ps 0, vel = store vs 0,
       iStart = [0, 1], iStop = [1, int (length ps) div 3], renormE = [2, 3], renormRho = [2, 3] \<rparr>"

text \<open>
  The migration descriptor of a three-dimensional subdomain with thresholds 0 and 2 on every
  axis.
\<close>

definition mpi3D :: MpiInfo where
  "mpi3D = \<lparr> thresholds = [0, 0, 0, 2, 2, 2], neighborhoodCenter = 13, nNeighbors = 27,
              nEmigrants = (\<lambda>_. 0), emigrants = (\<lambda>_. []) \<rparr>"

text \<open>
  The fields \<open>phi = 4\<close> and \<open>rho = -4\<close> on a grid of 4 by 4 interior nodes, ghosts included.
\<close>

definition phi4 :: Grid where
  "phi4 = grid2D 4 (\<lambda>_. 4)"

definition rho4 :: Grid where
  "rho4 = grid2D 4 (\<lambda>_. - 4)"

section \<open>Basic facts\<close>

lemma c_int_cast_of_int: "c_int_cast (real_of_int n) = n"
  by (simp add: c_int_cast_def)

lemma sdiv_nonneg: "0 \<le> a \<Longrightarrow> 0 < b \<Longrightarrow> (a::int) sdiv b = a div b"
  by (cases "a = 0") (simp_all add: signed_divide_int_def)

lemma smod_nonneg: "0 \<le> a \<Longrightarrow> 0 < b \<Longrightarrow> (a::int) smod b = a mod b"
  by (cases "a = 0") (simp_all add: signed_modulo_int_def)

section \<open>Loops\<close>

lemma for_loop_step:
  "i < stop \<Longrightarrow> 0 < step \<Longrightarrow>
   for_loop i stop step body st = for_loop (i + step) stop step body (body i st)"
  by (subst for_loop.simps) simp

lemma for_loop_done: "stop \<le> i \<Longrightarrow> for_loop i stop step body st = st"
  by (subst for_loop.simps) simp

lemma for_loop_no_step: "step \<le> 0 \<Longrightarrow> for_loop i stop step body st = st"
  by (subst for_loop.simps) simp

lemma for_nat_step:
  "i < stop \<Longrightarrow> for_nat i stop body st = for_nat (Suc i) stop body (body i st)"
  by (subst for_nat.simps) simp

lemma for_nat_done: "stop \<le> i \<Longrightarrow> for_nat i stop body st = st"
  by (subst for_nat.simps) simp

text \<open>A property that every iteration preserves holds after the loop.\<close>

lemma for_loop_invariant:
  "P st \<Longrightarrow> (\<And>j s. P s \<Longrightarrow> P (body j s)) \<Longrightarrow> P (for_loop i stop step body st)"
proof (induction i stop step body st rule: for_loop.induct)
  case (1 i stop step body st)
  show ?case
  proof (cases "i < stop \<and> 0 < step")
    case True
    have "P (body i st)" using "1.prems"(1) by (rule "1.prems"(2))
    then have "P (for_loop (i + step) stop step body (body i st))"
      using "1.IH" [OF True] "1.prems"(2) by blast
    then show ?thesis using True by (simp add: for_loop_step)
  next
    case False
    then have "for_loop i stop step body st = st"
      by (cases "i < stop") (simp_all add: for_loop_done for_loop_no_step)
    then show ?thesis using "1.prems"(1) by simp
  qed
qed

lemma for_nat_invariant:
  "P st \<Longrightarrow> (\<And>j s. lo \<le> j \<Longrightarrow> j < stop \<Longrightarrow> P s \<Longrightarrow> P (body j s)) \<Longrightarrow> lo \<le> i \<Longrightarrow>
   P (for_nat i stop body st)"
proof (induction i stop body st rule: for_nat.induct)
  case (1 i stop body st)
  show ?case
  proof (cases "i < stop")
    case True
    have "P (body i st)" using "1.prems" True by blast
    then have "P (for_nat (Suc i) stop body (body i st))"
      using "1.IH" [OF True] "1.prems" by simp
    then show ?thesis using True by (simp add: for_nat_step)
  next
    case False
    then show ?thesis using "1.prems"(1) by (simp add: for_nat_done)
  qed
qed

text \<open>A loop that runs at least once ends in a state its last iteration produced.\<close>

lemma for_loop_establish:
  assumes "i < stop" and "0 < step" and "I st"
    and "\<And>j s. I s \<Longrightarrow> I (body j s) \<and> Q (body j s)"
  shows "I (for_loop i stop step body st) \<and> Q (for_loop i stop step body st)"
proof -
  have "I (body i st) \<and> Q (body i st)" using assms(3) by (rule assms(4))
  then have "I (for_loop (i + step) stop step body (body i st))
             \<and> Q (for_loop (i + step) stop step body (body i st))"
    by (rule for_loop_invariant [where P = "\<lambda>s. I s \<and> Q s"]) (use assms(4) in blast)
  then show ?thesis using assms(1,2) by (simp add: for_loop_step)
qed

text \<open>An invariant that depends on the loop counter.\<close>

lemma for_nat_indexed:
  "I i st \<Longrightarrow> (\<And>j s. i \<le> j \<Longrightarrow> j < stop \<Longrightarrow> I j s \<Longrightarrow> I (Suc j) (body j s)) \<Longrightarrow> i \<le> stop \<Longrightarrow>
   I stop (for_nat i stop body st)"
proof (induction i stop body st rule: for_nat.induct)
  case (1 i stop body st)
  show ?case
  proof (cases "i < stop")
    case True
    have "I (Suc i) (body i st)" using "1.prems" True by simp
    then have "I stop (for_nat (Suc i) stop body (body i st))"
      using "1.IH" [OF True] "1.prems" True by simp
    then show ?thesis using True by (simp add: for_nat_step)
  next
    case False
    with "1.prems" have "i = stop" by simp
    then show ?thesis using "1.prems"(1) by (simp add: for_nat_done)
  qed
qed

text \<open>An invariant that depends on the counter of a loop with step 1.\<close>

lemma for_loop_indexed:
  "step = 1 \<Longrightarrow> I i st \<Longrightarrow>
   (\<And>j s. i \<le> j \<Longrightarrow> j < stop \<Longrightarrow> I j s \<Longrightarrow> I (j + 1) (body j s)) \<Longrightarrow> i \<le> stop \<Longrightarrow>
   I stop (for_loop i stop step body st)"
proof (induction i stop step body st rule: for_loop.induct)
  case (1 i stop step body st)
  show ?case
  proof (cases "i < stop")
    case True
    have "I (i + 1) (body i st)" using "1.prems" True by simp
    then have "I stop (for_loop (i + step) stop step body (body i st))"
      using "1.IH" "1.prems" True by simp
    then show ?thesis using True "1.prems"(1) by (simp add: for_loop_step)
  next
    case False
    with "1.prems" have "i = stop" by simp
    then show ?thesis using "1.prems"(2) by (simp add: for_loop_done)
  qed
qed

section \<open>The hierarchy built by mgAllocSubGrids\<close>

lemma mgAllocSubGrids_loop_length:
  "length (mgAllocSubGrids_loop g L q gs) = length gs + nat (L - q)"
proof (induction g L q gs rule: mgAllocSubGrids_loop.induct)
  case (1 g L q gs)
  show ?case
  proof (cases "q < L")
    case True
    with 1 show ?thesis by (subst mgAllocSubGrids_loop.simps) simp
  next
    case False
    then show ?thesis by (subst mgAllocSubGrids_loop.simps) simp
  qed
qed

lemma mgAllocSubGrids_loop_prefix:
  "i < length gs \<Longrightarrow> mgAllocSubGrids_loop g L q gs ! i = gs ! i"
proof (induction g L q gs rule: mgAllocSubGrids_loop.induct)
  case (1 g L q gs)
  show ?case
  proof (cases "q < L")
    case True
    with 1 show ?thesis by (subst mgAllocSubGrids_loop.simps) (simp add: nth_append)
  next
    case False
    then show ?thesis by (subst mgAllocSubGrids_loop.simps) simp
  qed
qed

lemma mgAllocSubGrids_loop_nth:
  "int (length gs) = q \<Longrightarrow> q \<le> r \<Longrightarrow> r < L \<Longrightarrow>
   mgAllocSubGrids_loop g L q gs ! nat r = subGrid g r"
proof (induction g L q gs rule: mgAllocSubGrids_loop.induct)
  case (1 g L q gs)
  from "1.prems" have lt: "q < L" by simp
  show ?case
  proof (cases "q = r")
    case True
    have "mgAllocSubGrids_loop g L (q + 1) (gs @ [subGrid g q]) ! nat r
              = (gs @ [subGrid g q]) ! nat r"
      using "1.prems" True by (intro mgAllocSubGrids_loop_prefix) simp
    also have "\<dots> = subGrid g r" using "1.prems" True by (simp add: nth_append)
    finally show ?thesis using lt by (subst mgAllocSubGrids_loop.simps) simp
  next
    case False
    with "1.prems" have "q + 1 \<le> r" by simp
    moreover have "int (length (gs @ [subGrid g q])) = q + 1" using "1.prems" by simp
    ultimately have "mgAllocSubGrids_loop g L (q + 1) (gs @ [subGrid g q]) ! nat r
       = subGrid g r"
      using "1.IH" [OF lt] "1.prems" by simp
    then show ?thesis using lt by (subst mgAllocSubGrids_loop.simps) simp
  qed
qed

lemma mgAllocSubGrids_level:
  "1 \<le> q \<Longrightarrow> q < L \<Longrightarrow> mgAllocSubGrids g L ! nat q = subGrid g q"
  unfolding mgAllocSubGrids_def by (rule mgAllocSubGrids_loop_nth) simp_all

lemma mgAllocSubGrids_level0: "mgAllocSubGrids g L ! 0 = g"
  unfolding mgAllocSubGrids_def by (simp add: mgAllocSubGrids_loop_prefix)

lemma mgAllocSubGrids_length: "1 \<le> L \<Longrightarrow> length (mgAllocSubGrids g L) = nat L"
  unfolding mgAllocSubGrids_def by (simp add: mgAllocSubGrids_loop_length)

text \<open>
  What the code computes on level \<open>q\<close>: every spatial extent of the finest grid divided by
  \<open>2 * q\<close>, and the leading extent unchanged.
\<close>

lemma mgAllocSubGrids_trueSize:
  assumes "1 \<le> q" "q < L" "1 \<le> d" "d < rank g"
  shows "trueSize (mgAllocSubGrids g L ! nat q) ! d = (trueSize g ! d) sdiv (2 * q)"
    and "trueSize (mgAllocSubGrids g L ! nat q) ! 0 = trueSize g ! 0"
proof -
  have "[1..<rank g] ! (d - 1) = d" using assms by (subst nth_upt) simp_all
  then show "trueSize (mgAllocSubGrids g L ! nat q) ! d = (trueSize g ! d) sdiv (2 * q)"
    using assms by (simp add: mgAllocSubGrids_level subGrid_def subTrueSize_def nth_Cons')
  show "trueSize (mgAllocSubGrids g L ! nat q) ! 0 = trueSize g ! 0"
    using assms by (simp add: mgAllocSubGrids_level subGrid_def subTrueSize_def)
qed

text \<open>
  C1 (the code departs from the claim). Claim: on every level \<open>q\<close> with \<open>1 \<le> q < L\<close> each
  spatial extent is half of the extent on level \<open>q - 1\<close>, that is the finest extent divided
  by \<open>2^q\<close>, and the leading extent is the same on every level. The code divides the finest
  extent by \<open>2 * q\<close>. For a finest grid of 24 by 24 interior nodes and four levels (24 is
  divisible by \<open>2^3\<close>) level 2 has extent 6 and level 3 has extent 4, where half of 6 and
  \<open>24 / 2^3\<close> are 3. The leading extent is 1 on both levels.
\<close>

theorem C1_level3_extent_not_halved:
  "trueSize (mgAllocSubGrids (grid2D 24 (\<lambda>_. 0)) 4 ! 2) ! 1 = 6
   \<and> trueSize (mgAllocSubGrids (grid2D 24 (\<lambda>_. 0)) 4 ! 3) ! 1 = 4
   \<and> trueSize (mgAllocSubGrids (grid2D 24 (\<lambda>_. 0)) 4 ! 3) ! 1 \<noteq> 6 sdiv 2
   \<and> trueSize (mgAllocSubGrids (grid2D 24 (\<lambda>_. 0)) 4 ! 3) ! 1 \<noteq> 24 sdiv 2 ^ 3
   \<and> trueSize (mgAllocSubGrids (grid2D 24 (\<lambda>_. 0)) 4 ! 2) ! 0 = 1
   \<and> trueSize (mgAllocSubGrids (grid2D 24 (\<lambda>_. 0)) 4 ! 3) ! 0 = 1"
  by (simp add: mgAllocSubGrids_def mgAllocSubGrids_loop.simps subGrid_def subTrueSize_def
        grid2D_def signed_divide_int_def)

section \<open>The sanity checks of mgAlloc\<close>

text \<open>The loop passes exactly when every tested extent gives 0 in the condition.\<close>

lemma mgAlloc_sanity_passes:
  "mgAlloc_sanity tsz nLev nD d = Inr () \<longleftrightarrow>
     (\<forall>e. d \<le> e \<and> e < nD \<longrightarrow> ((tsz ! (e + 1)) smod 2) * nLev = 0)"
proof (induction tsz nLev nD d rule: mgAlloc_sanity.induct)
  case (1 tsz nLev nD d)
  show ?case
  proof (cases "d < nD")
    case False
    then show ?thesis by (subst mgAlloc_sanity.simps) simp
  next
    case True
    show ?thesis
    proof (cases "((tsz ! (d + 1)) smod 2) * nLev = 0")
      case z: True
      have "mgAlloc_sanity tsz nLev nD d = mgAlloc_sanity tsz nLev nD (d + 1)"
        using True z by (subst mgAlloc_sanity.simps) simp
      also have "\<dots> = Inr () \<longleftrightarrow>
          (\<forall>e. d + 1 \<le> e \<and> e < nD \<longrightarrow> ((tsz ! (e + 1)) smod 2) * nLev = 0)"
        using "1.IH" [OF True] z by simp
      also have "\<dots> \<longleftrightarrow> (\<forall>e. d \<le> e \<and> e < nD \<longrightarrow> ((tsz ! (e + 1)) smod 2) * nLev = 0)"
        using z by (metis Suc_eq_plus1 Suc_leI le_neq_implies_less le_simps(3) order_less_imp_le)
      finally show ?thesis .
    next
      case nz: False
      have "mgAlloc_sanity tsz nLev nD d \<noteq> Inr ()"
        using True nz by (subst mgAlloc_sanity.simps) simp
      with True nz show ?thesis by auto
    qed
  qed
qed

lemma smod_2_eq_0_iff: "(a::int) smod 2 = 0 \<longleftrightarrow> even a"
  by (auto simp: signed_modulo_int_def sgn_if even_iff_mod_2_eq_zero)

text \<open>So, for a non-zero number of levels, the loop rejects exactly the odd extents.\<close>

lemma mgAlloc_sanity_even:
  "nLev \<noteq> 0 \<Longrightarrow>
   mgAlloc_sanity tsz nLev nD 0 = Inr () \<longleftrightarrow> (\<forall>e<nD. even (tsz ! (e + 1)))"
  by (simp add: mgAlloc_sanity_passes smod_2_eq_0_iff)

text \<open>
  C2 (the code departs from the claim). Claim: \<open>mgAlloc\<close> terminates fatally when some
  spatial extent of the finest grid is not divisible by \<open>2^(nLevels-1)\<close> and passes the check
  when every one is. The condition in the code is \<open>(trueSize[d+1] % 2) * nLevels\<close>, which
  tests oddness. With three levels and extents of 6, not divisible by \<open>2^2\<close>, construction
  succeeds; with one level and extents of 3, divisible by \<open>2^0\<close>, it terminates fatally.
\<close>

theorem C2_divisibility_check_tests_parity:
  "\<not> isl (mgAlloc (ini_levels 3) (grid2D 6 (\<lambda>_. 0)))
   \<and> \<not> (2 ^ (3 - 1) dvd (trueSize (grid2D 6 (\<lambda>_. 0)) ! 1))
   \<and> isl (mgAlloc (ini_levels 1) (grid2D 3 (\<lambda>_. 0)))
   \<and> 2 ^ (1 - 1) dvd (trueSize (grid2D 3 (\<lambda>_. 0)) ! 1)
   \<and> 2 ^ (1 - 1) dvd (trueSize (grid2D 3 (\<lambda>_. 0)) ! 2)"
  by (simp add: mgAlloc_def ini_levels_def grid2D_def mgAlloc_sanity.simps signed_modulo_int_def
       mgAllocSubGrids_def mgAllocSubGrids_loop.simps setSolver_def setRestrictor_def
       setProlongator_def)

section \<open>The reciprocal neighbour index\<close>

text \<open>A double that holds an integer in the range of \<^verbatim>\<open>int\<close> converts to that integer.\<close>

lemma c_double_to_int_of_int:
  "INT_MIN \<le> i \<Longrightarrow> i \<le> INT_MAX \<Longrightarrow> c_double_to_int (real_of_int i) = i"
  by (simp add: c_double_to_int_def c_int_cast_of_int)

text \<open>\<open>3^19 = 1162261467\<close> is the largest power of 3 in the range of \<^verbatim>\<open>int\<close>.\<close>

lemma pow3_le_INT_MAX: "e \<le> 19 \<Longrightarrow> (3::int) ^ e \<le> INT_MAX + 1"
proof -
  assume "e \<le> 19"
  then have "(3::int) ^ e \<le> 3 ^ 19" by (intro power_increasing) simp_all
  also have "\<dots> \<le> INT_MAX + 1" by (simp add: INT_MAX_def)
  finally show ?thesis .
qed

lemma recip_step_int:
  assumes "0 \<le> r + m * 3 ^ d" and "r + m * 3 ^ d < 3 ^ e" and "e \<le> 19"
  shows "c_double_to_int (real_of_int r + real_of_int m * 3 ^ d) = r + m * 3 ^ d"
proof -
  have eq: "real_of_int r + real_of_int m * 3 ^ d = real_of_int (r + m * 3 ^ d)" by simp
  have "INT_MIN \<le> r + m * 3 ^ d" using assms(1) by (simp add: INT_MIN_def)
  moreover have "r + m * 3 ^ d \<le> INT_MAX"
    using assms(2) pow3_le_INT_MAX [OF assms(3)] by simp
  ultimately show ?thesis unfolding eq by (rule c_double_to_int_of_int)
qed

text \<open>
  The loop adds, digit by digit, the base-3 complement of the \<open>k\<close> lowest digits of \<open>n\<close>,
  scaled by \<open>3^d\<close>. The partial sum before digit \<open>d\<close> is below \<open>3^d\<close>, so as long as the loop
  stops at digit 19 or before, every partial sum is below \<open>3^19\<close> and no conversion leaves the
  range of \<^verbatim>\<open>int\<close>.
\<close>

lemma puNeighborToReciprocal_loop_eq:
  "0 \<le> n \<Longrightarrow> 0 \<le> r \<Longrightarrow> r < 3 ^ d \<Longrightarrow> d + k \<le> 19 \<Longrightarrow>
   puNeighborToReciprocal_loop k d n r = r + 3 ^ d * (3 ^ k - 1 - n mod 3 ^ k)"
proof (induction k arbitrary: d n r)
  case 0
  then show ?case by simp
next
  case (Suc k)
  have n3: "0 \<le> n div 3" using Suc.prems by simp
  have m: "n mod 3 ^ Suc k = n mod 3 + 3 * ((n div 3) mod 3 ^ k)"
    using zmod_zmult2_eq [of "3 ^ k" n 3] by simp
  have dig: "0 \<le> n mod 3" "n mod 3 \<le> 2" by simp_all
  have sm: "n smod 3 = n mod 3" "n sdiv 3 = n div 3"
    using Suc.prems(1) by (simp_all add: sdiv_nonneg smod_nonneg)
  have lo: "0 \<le> r + (2 - n mod 3) * 3 ^ d"
    using Suc.prems(2) dig by simp
  have le: "(2 - n mod 3) * 3 ^ d \<le> 2 * 3 ^ d"
    using dig by (intro mult_right_mono) simp_all
  have p: "(3::int) ^ (d + 1) = 3 ^ d + 2 * 3 ^ d" by simp
  have hi: "r + (2 - n mod 3) * 3 ^ d < 3 ^ (d + 1)"
    unfolding p by (rule add_less_le_mono [OF Suc.prems(3) le])
  have e: "d + 1 \<le> 19" "d + 1 + k \<le> 19" using Suc.prems(4) by simp_all
  have "puNeighborToReciprocal_loop (Suc k) d n r =
        puNeighborToReciprocal_loop k (d + 1) (n div 3) (r + (2 - n mod 3) * 3 ^ d)"
    by (simp only: puNeighborToReciprocal_loop.simps sm recip_step_int [OF lo hi e(1)])
  also have "\<dots> = r + (2 - n mod 3) * 3 ^ d + 3 ^ (d + 1) * (3 ^ k - 1 - (n div 3) mod 3 ^ k)"
    by (rule Suc.IH [OF n3 lo hi e(2)])
  also have "\<dots> = r + 3 ^ d * (3 ^ Suc k - 1 - n mod 3 ^ Suc k)"
    unfolding m by (simp add: algebra_simps)
  finally show ?case .
qed

lemma puNeighborToReciprocal_eq:
  "D \<le> 19 \<Longrightarrow> 0 \<le> n \<Longrightarrow> n < 3 ^ D \<Longrightarrow> puNeighborToReciprocal n D = 3 ^ D - 1 - n"
  by (simp add: puNeighborToReciprocal_def puNeighborToReciprocal_loop_eq)

text \<open>The result is again a neighbour index.\<close>

lemma puNeighborToReciprocal_range:
  "D \<le> 19 \<Longrightarrow> 0 \<le> n \<Longrightarrow> n < 3 ^ D \<Longrightarrow>
   0 \<le> puNeighborToReciprocal n D \<and> puNeighborToReciprocal n D < 3 ^ D"
  by (simp add: puNeighborToReciprocal_eq)

text \<open>The code evaluated for 20 dimensions: one step of the loop, with the counter a numeral.\<close>

lemma puNeighborToReciprocal_loop_numeral:
  "puNeighborToReciprocal_loop (numeral k) d n r =
     puNeighborToReciprocal_loop (pred_numeral k) (d + 1) (n sdiv 3)
       (c_double_to_int (real_of_int r + real_of_int (2 - n smod 3) * 3 ^ d))"
  by (simp add: numeral_eq_Suc)

text \<open>
  For the neighbour index 0 the partial sum after 19 digits is \<open>3^19 - 1\<close>; digit 19 takes the
  double to \<open>3^20 - 1 = 3486784400\<close>, above \<open>2^31 - 1\<close>.
\<close>

lemma puNeighborToReciprocal_0_20: "puNeighborToReciprocal 0 20 = - 2147483648"
  by (simp add: puNeighborToReciprocal_def puNeighborToReciprocal_loop_numeral
        c_double_to_int_def c_int_cast_def INT_MIN_def INT_MAX_def signed_divide_int_def
        signed_modulo_int_def)

text \<open>
  From \<open>-2^31\<close> every digit \<^verbatim>\<open>neighbor % 3\<close> is 0, \<open>-1\<close> or \<open>-2\<close>. The partial sum after 19 digits
  is \<open>2147483647\<close>; digit 19 takes the double to \<open>5634268048\<close>.
\<close>

lemma puNeighborToReciprocal_INT_MIN_20:
  "puNeighborToReciprocal (- 2147483648) 20 = - 2147483648"
  by (simp add: puNeighborToReciprocal_def puNeighborToReciprocal_loop_numeral
        c_double_to_int_def c_int_cast_def INT_MIN_def INT_MAX_def signed_divide_int_def
        signed_modulo_int_def)

text \<open>
  C9, as stated, fails. Claim: for every dimensionality \<open>D \<ge> 1\<close> and every neighbour index \<open>n\<close>
  in \<open>[0, 3^D)\<close>, \<open>puNeighborToReciprocal (puNeighborToReciprocal n D) D = n\<close>. For \<open>D = 20\<close>
  and \<open>n = 0\<close> the reciprocal index \<open>3^20 - 1\<close> is not an \<^verbatim>\<open>int\<close>: the function returns \<open>-2^31\<close>,
  and applied to that it returns \<open>-2^31\<close> again, not 0.
\<close>

theorem C9_reciprocal_overflows_for_20_dimensions:
  "(1::nat) \<le> 20 \<and> (0::int) \<le> 0 \<and> (0::int) < 3 ^ 20
   \<and> puNeighborToReciprocal 0 20 = - 2147483648
   \<and> puNeighborToReciprocal (puNeighborToReciprocal 0 20) 20 = - 2147483648
   \<and> puNeighborToReciprocal (puNeighborToReciprocal 0 20) 20 \<noteq> 0"
  by (simp add: puNeighborToReciprocal_0_20 puNeighborToReciprocal_INT_MIN_20)

text \<open>
  C9 (amended). For every dimensionality \<open>D\<close> with \<open>1 \<le> D \<le> 19\<close>, the dimensionalities for
  which \<open>3^D\<close> is in the range of \<^verbatim>\<open>int\<close>, and every neighbour index \<open>n\<close> in \<open>[0, 3^D)\<close>,
  \<open>puNeighborToReciprocal (puNeighborToReciprocal n D) D = n\<close>.
\<close>

theorem C9_reciprocal_involution:
  assumes "1 \<le> D" and "D \<le> 19" and "0 \<le> n" and "n < 3 ^ D"
  shows "puNeighborToReciprocal (puNeighborToReciprocal n D) D = n"
proof -
  have r: "puNeighborToReciprocal n D = 3 ^ D - 1 - n"
    using assms by (simp add: puNeighborToReciprocal_eq)
  have "0 \<le> 3 ^ D - 1 - n" "3 ^ D - 1 - n < 3 ^ D" using assms by simp_all
  then have "puNeighborToReciprocal (3 ^ D - 1 - n) D = 3 ^ D - 1 - (3 ^ D - 1 - n)"
    by (rule puNeighborToReciprocal_eq [OF assms(2)])
  with r show ?thesis by simp
qed

text \<open>The code evaluated at \<open>n = 5\<close>, \<open>D = 3\<close>.\<close>

lemma puNeighborToReciprocal_5_3: "puNeighborToReciprocal 5 3 = 21"
  by (simp add: puNeighborToReciprocal_def numeral_3_eq_3 c_double_to_int_def c_int_cast_def
        INT_MIN_def INT_MAX_def signed_divide_int_def signed_modulo_int_def)

theorem C9_reciprocal_involution_witness:
  "(1::nat) \<le> 3 \<and> (3::nat) \<le> 19 \<and> (0::int) \<le> 5 \<and> (5::int) < 3 ^ 3
   \<and> puNeighborToReciprocal 5 3 = 21
   \<and> puNeighborToReciprocal (puNeighborToReciprocal 5 3) 3 = 5"
  using C9_reciprocal_involution [of 3 5] puNeighborToReciprocal_5_3 by simp

section \<open>The ghost exchange\<close>

lemma val_gSwapGhostsDim:
  "val (gSwapGhostsDim recv g d) i =
     (if 0 \<le> i \<and> i < nElements g \<and> isGhostAlong g d i then recv g d i else val g i)"
  by (simp add: gSwapGhostsDim_def)

lemma desc_gSwapGhostsDim:
  "rank (gSwapGhostsDim recv g d) = rank g"
  "size_g (gSwapGhostsDim recv g d) = size_g g"
  "trueSize (gSwapGhostsDim recv g d) = trueSize g"
  "nGhostLayers (gSwapGhostsDim recv g d) = nGhostLayers g"
  "sizeProd (gSwapGhostsDim recv g d) = sizeProd g"
  by (simp_all add: gSwapGhostsDim_def)

section \<open>Memory accesses of the Jacobi sweep\<close>

text \<open>
  Whenever the grid has at least one element, the sweep reads \<^verbatim>\<open>phi->val\<close> at the offset
  \<open>-sizeProd[1]\<close>: the neighbour \<^verbatim>\<open>gjj\<close> of the element 0.
\<close>

lemma jacobian_sweep_reads_below:
  assumes "0 < sp ! rnk"
  shows "ReadPhi (- (sp ! 1)) \<in> set (snd (jacobian_sweep sp rnk phiVal rhoVal tempVal0))"
proof -
  let ?P = "\<lambda>st :: int \<times> int \<times> int \<times> int \<times> doubles \<times> access list.
              ReadPhi (- (sp ! 1)) \<in> set (snd (snd (snd (snd (snd st)))))"
  let ?body = "\<lambda>g (gj, gjj, gk, gkk, tempVal, trace).
           (gj + 1, gjj + 1, gk + 1, gkk + 1,
            tempVal(g := 0.25 * (phiVal gj + phiVal gjj + phiVal gk + phiVal gkk - rhoVal g)),
            trace @ [ReadPhi gj, ReadPhi gjj, ReadPhi gk, ReadPhi gkk, ReadRho g, WriteTemp g])"
  let ?st0 = "(sp ! 1, - (sp ! 1), sp ! 2, - (sp ! 2), tempVal0, [])"
  have first: "?P (?body 0 ?st0)" by simp
  have "?P (for_loop (0 + 1) (sp ! rnk) 1 ?body (?body 0 ?st0))"
    by (rule for_loop_invariant [where P = ?P, OF first]) (auto simp: case_prod_beta)
  then have "?P (for_loop 0 (sp ! rnk) 1 ?body ?st0)"
    using assms by (subst for_loop_step) simp_all
  then show ?thesis by (simp add: jacobian_sweep_def case_prod_beta)
qed

text \<open>
  C10 (the code departs from the claim). Claim: every read and write of a relaxation sweep of
  \<^verbatim>\<open>jacobian\<close> on \<^verbatim>\<open>phi->val\<close>, \<^verbatim>\<open>rho->val\<close> and the scratch buffer is at an index in
  \<open>[0, sizeProd[rank])\<close>. The sweep visits every element, ghost cells included, and reads the
  four neighbours of each; by the lemma above the first iteration reads \<^verbatim>\<open>phi->val\<close> at
  \<open>-sizeProd[1]\<close>. On the grid of 2 by 2 interior nodes (16 elements) the first four
  accesses are reads of \<^verbatim>\<open>phi->val\<close> at 1, -1, 4 and -4.
\<close>

theorem C10_jacobian_reads_out_of_bounds:
  "take 4 (snd (jacobian_sweep (sizeProd (grid2D 2 (\<lambda>_. 0))) (rank (grid2D 2 (\<lambda>_. 0)))
                  (\<lambda>_. 0) (\<lambda>_. 0) (\<lambda>_. 0)))
     = [ReadPhi 1, ReadPhi (- 1), ReadPhi 4, ReadPhi (- 4)]
   \<and> nElements (grid2D 2 (\<lambda>_. 0)) = 16
   \<and> \<not> list_all (inBounds (nElements (grid2D 2 (\<lambda>_. 0))))
         (snd (jacobian_sweep (sizeProd (grid2D 2 (\<lambda>_. 0))) (rank (grid2D 2 (\<lambda>_. 0)))
                 (\<lambda>_. 0) (\<lambda>_. 0) (\<lambda>_. 0)))"
  by (simp add: jacobian_sweep_def grid2D_def for_loop.simps nElements_def inBounds_def)

section \<open>The periodic boundary\<close>

text \<open>What the two conditional statements do to the coordinate they are applied to.\<close>

lemma puBndPeriodic_coord_at:
  "puBndPeriodic_coord sz q ps q =
     (if ps q > real_of_int sz
      then (if ps q - real_of_int sz < 0 then ps q else ps q - real_of_int sz)
      else if ps q < 0 then ps q + real_of_int sz else ps q)"
  by (simp add: puBndPeriodic_coord_def Let_def)

lemma puBndPeriodic_coord_other:
  "r \<noteq> q \<Longrightarrow> puBndPeriodic_coord sz q ps r = ps r"
  by (simp add: puBndPeriodic_coord_def Let_def)

text \<open>
  C8 (the code departs from the claim). Claim: \<^verbatim>\<open>puBndPeriodic\<close> replaces a coordinate
  \<open>pos[d] \<ge> size[d+1]\<close> by \<open>pos[d] - size[d+1]\<close>, a coordinate \<open>pos[d] < 0\<close> by
  \<open>pos[d] + size[d+1]\<close>, leaves every other coordinate and all velocities unchanged. The
  first comparison in the code is \<^verbatim>\<open>>\<close>. For a particle at \<open>(4, 5, -1)\<close> in a domain of size 4
  per axis the result is \<open>(4, 1, 3)\<close>: the coordinate equal to the size stays where it is
  (the claim gives 0), the other two are wrapped as claimed, the velocity is unchanged.
\<close>

theorem C8_position_on_upper_bound_not_wrapped:
  "map (\<lambda>d. real_of_int (size_g (grid3D 2 (\<lambda>_. 0)) ! (d + 1))) [0, 1, 2] = [4, 4, 4]
   \<and> map (pos (onePop [4, 5, - 1] [7, 7, 7])) [0, 1, 2] = [4, 5, - 1]
   \<and> map (pos (puBndPeriodic (onePop [4, 5, - 1] [7, 7, 7]) (grid3D 2 (\<lambda>_. 0)))) [0, 1, 2]
       = [4, 1, 3]
   \<and> map (vel (puBndPeriodic (onePop [4, 5, - 1] [7, 7, 7]) (grid3D 2 (\<lambda>_. 0)))) [0, 1, 2]
       = [7, 7, 7]"
  unfolding puBndPeriodic_def onePop_def grid3D_def
  by (simp add: for_loop.simps for_nat.simps puBndPeriodic_coord_def store_def Let_def)

section \<open>Restriction followed by prolongation\<close>

lemma interpAdd_tuple:
  "interpAdd (f, fNext, fPrev, fVal) =
     (f + 2, fNext + 2, fPrev + 2, fVal(f := fVal f + 0.5 * (fVal fPrev + fVal fNext)))"
  by (simp add: interpAdd_def)

lemma interpSet_tuple:
  "interpSet (f, fNext, fPrev, fVal) =
     (f + 2, fNext + 2, fPrev + 2, fVal(f := 0.5 * (fVal fPrev + fVal fNext)))"
  by (simp add: interpSet_def)

lemma advance_tuple:
  "advance n (f, fNext, fPrev, fVal) = (f + n, fNext + n, fPrev + n, fVal)"
  by (simp add: advance_def)

text \<open>The second level of the hierarchy over a 4 by 4 grid is the 2 by 2 grid.\<close>

lemma level1_of_grid2D_4: "mgAllocSubGrids (grid2D 4 v) 2 ! 1 = grid2D 2 (\<lambda>_. 0)"
  by (simp add: mgAllocSubGrids_def mgAllocSubGrids_loop.simps subGrid_def subSize_def
       subTrueSize_def longIntArrCumProd_def signed_divide_int_def grid2D_def upt_conv_Cons)

lemma coarseC_alt: "coarseC = halfWeightRestrict2D (grid2D 4 (\<lambda>_. 1)) (grid2D 2 (\<lambda>_. 0))"
  by (simp only: coarseC_def fineC_def level1_of_grid2D_4)

lemma coarseC_interior: "map (val coarseC) [5, 6, 9, 10] = [1, 1, 1, 1]"
  unfolding coarseC_alt halfWeightRestrict2D_def grid2D_def Let_def
  by (simp add: for_loop.simps)

lemma prolonged_13: "val (bilinearProlong2D periodicSelf fineC coarseC) 13 = 2"
  unfolding bilinearProlong2D_def coarseC_alt halfWeightRestrict2D_def fineC_def grid2D_def Let_def
  by (simp add: for_loop.simps val_gSwapGhostsDim desc_gSwapGhostsDim
       periodicSelf_def nElements_def isGhostAlong_def coordAlong_def
       interpAdd_tuple interpSet_tuple advance_tuple)

text \<open>
  The three-dimensional pair on the same kind of input: the constant field 1 on a fine grid
  of 2 by 2 by 2 interior nodes. The coarse interior node (offset 13) is 1 after the
  restriction, and the fine interior node at offset 42, which the last interpolation pass of
  \<^verbatim>\<open>bilinearProlong3D\<close> writes, is 1 after the prolongation.
\<close>

lemma restrict3D_constant_node:
  "val (halfWeightRestrict3D (grid3D 2 (\<lambda>_. 1)) (grid3D 1 (\<lambda>_. 0))) 13 = 1"
  unfolding halfWeightRestrict3D_def grid3D_def Let_def
  by (simp add: for_loop.simps)

lemma prolong3D_constant_node:
  "val (bilinearProlong3D periodicSelf (grid3D 2 (\<lambda>_. 1))
          (halfWeightRestrict3D (grid3D 2 (\<lambda>_. 1)) (grid3D 1 (\<lambda>_. 0)))) 42 = 1"
  unfolding bilinearProlong3D_def halfWeightRestrict3D_def grid3D_def Let_def
  by (simp add: for_loop.simps val_gSwapGhostsDim desc_gSwapGhostsDim
       periodicSelf_def nElements_def isGhostAlong_def coordAlong_def
       interpAdd_tuple interpSet_tuple advance_tuple)

text \<open>
  C5 (the code departs from the claim). Claim: restricting a constant fine field \<open>C\<close> with the
  half-weight restrictor gives \<open>C\<close> at every coarse interior node, and prolonging that coarse
  field back to the fine grid gives \<open>C\<close> at every fine interior node, in two and in three
  dimensions. The restriction does give \<open>C\<close>. The two interpolation passes of
  \<^verbatim>\<open>bilinearProlong2D\<close> add to what the fine grid holds (\<^verbatim>\<open>+=\<close>), where those of
  \<^verbatim>\<open>bilinearProlong3D\<close> assign (\<^verbatim>\<open>=\<close>). For the constant field 1 on a fine grid of 4 by 4
  interior nodes the coarse interior is 1 everywhere, and the fine interior node at offset 13
  (first interior column, second interior row), which held 1, holds 2 after the prolongation.
\<close>

theorem C5_prolong2D_accumulates:
  "val fineC 13 = 1
   \<and> map (val coarseC) [5, 6, 9, 10] = [1, 1, 1, 1]
   \<and> val (bilinearProlong2D periodicSelf fineC coarseC) 13 = 2"
  using coarseC_interior prolonged_13 by (simp add: fineC_def grid2D_def)

section \<open>The normalization node of the Jacobi smoother\<close>

text \<open>
  C7, as stated, fails: on the grid of 2 by 2 interior nodes the normalization node is the
  element at offset 15, a ghost cell. It holds 0 after the pin of the first cycle, and the
  ghost exchange of the same cycle, here between the subdomain and itself, replaces it by the
  value 1 of the interior node it mirrors.
\<close>

theorem C7_pinned_node_overwritten_by_exchange:
  "normalize_idx (grid2D 2 (\<lambda>_. 0)) = 15
   \<and> isGhostAlong (grid2D 2 (\<lambda>_. 0)) 1 15
   \<and> val (jacobian_pinned (grid2D 2 cornerRho) (grid2D 2 (\<lambda>_. 0))) 15 = 0
   \<and> val (jacobian periodicSelf (grid2D 2 (\<lambda>_. 0)) (grid2D 2 cornerRho) 1) 15 = 1"
  unfolding jacobian_def jacobian_cycle_def jacobian_pinned_def jacobian_sweep_def normalize_idx_def
    grid2D_def cornerRho_def Let_def
  by (simp add: for_loop.simps for_nat.simps val_gSwapGhostsDim desc_gSwapGhostsDim
       periodicSelf_def nElements_def isGhostAlong_def coordAlong_def)

lemma sameShape_refl: "sameShape g g"
  by (simp add: sameShape_def)

lemma sameShape_gSwapGhostsDim: "sameShape (gSwapGhostsDim recv g d) h = sameShape g h"
  by (simp add: sameShape_def desc_gSwapGhostsDim)

lemma sameShape_jacobian_pinned: "sameShape (jacobian_pinned rho g) h = sameShape g h"
  by (simp add: sameShape_def jacobian_pinned_def Let_def)

lemma sameShape_isGhostAlong: "sameShape g h \<Longrightarrow> isGhostAlong g d i = isGhostAlong h d i"
  by (simp add: sameShape_def isGhostAlong_def coordAlong_def)

lemma sameShape_normalize_idx: "sameShape g h \<Longrightarrow> normalize_idx g = normalize_idx h"
  by (simp add: sameShape_def normalize_idx_def)

text \<open>Right after the pin the normalization node holds 0, on every grid.\<close>

lemma val_jacobian_pinned_normalize_idx: "val (jacobian_pinned rho g) (normalize_idx g) = 0"
  by (simp add: jacobian_pinned_def Let_def)

text \<open>
  One cycle, started on any grid of the shape of \<open>phi\<close>, ends with the normalization node at
  0 when that node is interior: the exchange along an axis rewrites ghost cells of that axis
  only.
\<close>

lemma jacobian_cycle_keeps_pin:
  assumes shape: "sameShape g phi"
    and inner: "\<forall>d. 1 \<le> d \<and> d < rank phi \<longrightarrow> \<not> isGhostAlong phi d (normalize_idx phi)"
  shows "sameShape (jacobian_cycle recv rho g) phi
         \<and> val (jacobian_cycle recv rho g) (normalize_idx phi) = 0"
proof -
  let ?P = "\<lambda>h. sameShape h phi \<and> val h (normalize_idx phi) = 0"
  have rk: "rank g = rank phi" using shape by (simp add: sameShape_def)
  have start: "?P (jacobian_pinned rho g)"
    using shape val_jacobian_pinned_normalize_idx [of rho g]
    using sameShape_normalize_idx [of g phi] by (simp add: sameShape_jacobian_pinned)
  have "?P (for_nat 1 (rank g) (\<lambda>d h. gSwapGhostsDim recv h d) (jacobian_pinned rho g))"
  proof (rule for_nat_invariant [where P = ?P and lo = 1, OF start])
    fix j h
    assume j: "1 \<le> j" "j < rank g" and h: "?P h"
    have "\<not> isGhostAlong h j (normalize_idx phi)"
      using inner j rk h sameShape_isGhostAlong [of h phi j "normalize_idx phi"] by simp
    then show "?P (gSwapGhostsDim recv h j)"
      using h by (simp add: sameShape_gSwapGhostsDim val_gSwapGhostsDim)
  qed simp
  then show ?thesis by (simp add: jacobian_cycle_def)
qed

text \<open>
  C7 (amended). For every grid, provided the normalization node lies inside the value array
  and is not a ghost cell along any spatial axis, for every cycle \<open>c \<ge> 1\<close> of \<^verbatim>\<open>jacobian\<close>
  the node holds exactly 0 after the pin of cycle \<open>c\<close>, and still holds 0 at the end of
  cycle \<open>c\<close>, after the ghost exchange, whatever the transport delivers.
\<close>

theorem C7_pin_survives_exchange_on_interior_node:
  assumes "1 \<le> c"
    and "0 \<le> normalize_idx phi" and "normalize_idx phi < nElements phi"
    and "\<forall>d. 1 \<le> d \<and> d < rank phi \<longrightarrow> \<not> isGhostAlong phi d (normalize_idx phi)"
  shows "val (jacobian_pinned rho (jacobian recv phi rho (c - 1))) (normalize_idx phi) = 0
         \<and> val (jacobian recv phi rho c) (normalize_idx phi) = 0"
proof -
  have step: "\<And>j s. sameShape s phi \<Longrightarrow>
      sameShape (jacobian_cycle recv rho s) phi \<and> val (jacobian_cycle recv rho s) (normalize_idx phi) = 0"
    using assms(4) by (rule jacobian_cycle_keeps_pin [rotated])
  have "sameShape (jacobian recv phi rho c) phi \<and> val (jacobian recv phi rho c) (normalize_idx phi) = 0"
    unfolding jacobian_def
    by (rule for_loop_establish [where I = "\<lambda>s. sameShape s phi"])
       (use assms(1) step in \<open>simp_all add: sameShape_refl\<close>)
  moreover have "sameShape (jacobian recv phi rho (c - 1)) phi"
    unfolding jacobian_def
    by (rule for_loop_invariant [where P = "\<lambda>s. sameShape s phi"])
       (use step in \<open>simp_all add: sameShape_refl\<close>)
  then have "val (jacobian_pinned rho (jacobian recv phi rho (c - 1))) (normalize_idx phi) = 0"
    using val_jacobian_pinned_normalize_idx [of rho "jacobian recv phi rho (c - 1)"]
      sameShape_normalize_idx [of "jacobian recv phi rho (c - 1)" phi]
    by simp
  ultimately show ?thesis by simp
qed

text \<open>
  What the sweep leaves in the scratch buffer: at every offset of the grid the average of the
  four neighbours in \<^verbatim>\<open>phi->val\<close>, less a quarter of \<^verbatim>\<open>rho->val\<close> there.
\<close>

lemma jacobian_sweep_val:
  "fst (jacobian_sweep sp rnk phiVal rhoVal tempVal0) q =
     (if 0 \<le> q \<and> q < sp ! rnk
      then 0.25 * (phiVal (q + sp ! 1) + phiVal (q - sp ! 1) + phiVal (q + sp ! 2)
                   + phiVal (q - sp ! 2) - rhoVal q)
      else tempVal0 q)"
proof (cases "0 \<le> sp ! rnk")
  case False
  then show ?thesis by (auto simp: jacobian_sweep_def for_loop_done)
next
  case True
  let ?body = "\<lambda>g (gj, gjj, gk, gkk, tempVal, trace).
           (gj + 1, gjj + 1, gk + 1, gkk + 1,
            tempVal(g := 0.25 * (phiVal gj + phiVal gjj + phiVal gk + phiVal gkk - rhoVal g)),
            trace @ [ReadPhi gj, ReadPhi gjj, ReadPhi gk, ReadPhi gkk, ReadRho g, WriteTemp g])"
  let ?st0 = "(sp ! 1, - (sp ! 1), sp ! 2, - (sp ! 2), tempVal0, [])"
  let ?I = "\<lambda>g (st :: int \<times> int \<times> int \<times> int \<times> doubles \<times> access list).
     fst st = g + sp ! 1 \<and> fst (snd st) = g - sp ! 1 \<and> fst (snd (snd st)) = g + sp ! 2
     \<and> fst (snd (snd (snd st))) = g - sp ! 2
     \<and> (\<forall>q. fst (snd (snd (snd (snd st)))) q =
           (if 0 \<le> q \<and> q < g
            then 0.25 * (phiVal (q + sp ! 1) + phiVal (q - sp ! 1) + phiVal (q + sp ! 2)
                         + phiVal (q - sp ! 2) - rhoVal q)
            else tempVal0 q))"
  have "?I (sp ! rnk) (for_loop 0 (sp ! rnk) 1 ?body ?st0)"
  proof (rule for_loop_indexed [where I = ?I])
    show "?I 0 ?st0" by simp
  next
    fix j s
    assume "0 \<le> j" "j < sp ! rnk" "?I j s"
    then show "?I (j + 1) (?body j s)"
      by (cases s) auto
  qed (use True in simp_all)
  then show ?thesis by (simp add: jacobian_sweep_def case_prod_beta)
qed

text \<open>The loop that copies the scratch buffer back.\<close>

lemma copy_back_val:
  "for_loop 0 n 1 (\<lambda>q phiVal. phiVal(q := tempVal q)) (v :: doubles) i =
     (if 0 \<le> i \<and> i < n then tempVal i else v i)"
proof (cases "0 \<le> n")
  case False
  then show ?thesis by (auto simp: for_loop_done)
next
  case True
  let ?I = "\<lambda>g (w :: doubles). \<forall>i. w i = (if 0 \<le> i \<and> i < g then tempVal i else v i)"
  have "?I n (for_loop 0 n 1 (\<lambda>q phiVal. phiVal(q := tempVal q)) v)"
    by (rule for_loop_indexed [where I = ?I]) (use True in auto)
  then show ?thesis by simp
qed

text \<open>The values of a grid after one cycle up to the pin.\<close>

lemma val_jacobian_pinned:
  "val (jacobian_pinned rho phi) i =
     (if i = normalize_idx phi then 0
      else if 0 \<le> i \<and> i < nElements phi
      then 0.25 * (val phi (i + sizeProd phi ! 1) + val phi (i - sizeProd phi ! 1)
                   + val phi (i + sizeProd phi ! 2) + val phi (i - sizeProd phi ! 2) - val rho i)
      else val phi i)"
  by (simp add: jacobian_pinned_def Let_def copy_back_val jacobian_sweep_val nElements_def)

lemma desc_jacobian_pinned:
  "rank (jacobian_pinned rho g) = rank g"
  "size_g (jacobian_pinned rho g) = size_g g"
  "trueSize (jacobian_pinned rho g) = trueSize g"
  "nGhostLayers (jacobian_pinned rho g) = nGhostLayers g"
  "sizeProd (jacobian_pinned rho g) = sizeProd g"
  by (simp_all add: jacobian_pinned_def Let_def)

text \<open>One cycle on a grid of rank 3: the pin, then the exchange along the axes 1 and 2.\<close>

lemma jacobian_cycle_rank3:
  "rank g = 3 \<Longrightarrow>
   jacobian_cycle recv rho g = gSwapGhostsDim recv (gSwapGhostsDim recv (jacobian_pinned rho g) 1) 2"
  by (simp add: jacobian_cycle_def for_nat.simps numeral_3_eq_3 numeral_2_eq_2)

lemma jacobian_two_cycles:
  "jacobian recv phi rho 1 = jacobian_cycle recv rho phi"
  "jacobian recv phi rho 2 = jacobian_cycle recv rho (jacobian_cycle recv rho phi)"
  by (simp_all add: jacobian_def for_loop.simps)

text \<open>On the grid of 4 by 4 interior nodes the normalization node is interior.\<close>

lemma inner4: "\<forall>d. 1 \<le> d \<and> d < rank (grid2D 4 v) \<longrightarrow> \<not> isGhostAlong (grid2D 4 v) d (normalize_idx (grid2D 4 v))"
proof (intro allI impI)
  fix d :: nat assume "1 \<le> d \<and> d < rank (grid2D 4 v)"
  then have "d = 1 \<or> d = 2" by (auto simp: grid2D_def)
  then show "\<not> isGhostAlong (grid2D 4 v) d (normalize_idx (grid2D 4 v))"
    by (auto simp: grid2D_def isGhostAlong_def coordAlong_def normalize_idx_def)
qed

text \<open>
  Two cycles on that grid, from \<open>phi = 4\<close> and \<open>rho = -4\<close> everywhere, a single periodic
  subdomain.
\<close>

lemma desc_phi4:
  "rank phi4 = 3" "size_g phi4 = [1, 6, 6]" "trueSize phi4 = [1, 4, 4]"
  "nGhostLayers phi4 = [0, 1, 1, 0, 1, 1]" "sizeProd phi4 = [1, 1, 6, 36]"
  "val phi4 i = 4" "val rho4 i = - 4"
  by (simp_all add: phi4_def rho4_def grid2D_def)

lemma jacobian_first_cycle_4:
  "jacobian periodicSelf phi4 rho4 1 =
   gSwapGhostsDim periodicSelf (gSwapGhostsDim periodicSelf (jacobian_pinned rho4 phi4) 1) 2"
  by (simp add: jacobian_two_cycles jacobian_cycle_rank3 desc_phi4)

lemma desc_first_cycle_4:
  "rank (jacobian periodicSelf phi4 rho4 1) = 3"
  "size_g (jacobian periodicSelf phi4 rho4 1) = [1, 6, 6]"
  "trueSize (jacobian periodicSelf phi4 rho4 1) = [1, 4, 4]"
  "nGhostLayers (jacobian periodicSelf phi4 rho4 1) = [0, 1, 1, 0, 1, 1]"
  "sizeProd (jacobian periodicSelf phi4 rho4 1) = [1, 1, 6, 36]"
  unfolding jacobian_first_cycle_4
  by (simp_all add: desc_gSwapGhostsDim desc_jacobian_pinned desc_phi4)

lemma jacobian_second_cycle_4:
  "jacobian periodicSelf phi4 rho4 2 =
   gSwapGhostsDim periodicSelf (gSwapGhostsDim periodicSelf
      (jacobian_pinned rho4 (jacobian periodicSelf phi4 rho4 1)) 1) 2"
proof -
  have "jacobian periodicSelf phi4 rho4 2 =
        jacobian_cycle periodicSelf rho4 (jacobian periodicSelf phi4 rho4 1)"
    by (simp only: jacobian_two_cycles)
  then show ?thesis
    by (simp only: jacobian_cycle_rank3 [OF desc_first_cycle_4(1)])
qed

text \<open>The first cycle leaves 5 at every element but the normalization node.\<close>

lemma val_first_cycle_4:
  "map (val (jacobian periodicSelf phi4 rho4 1))
     [12, 15, 16, 17, 19, 20, 21, 22, 23, 24, 27, 28] = [5, 5, 5, 5, 5, 5, 0, 5, 5, 5, 5, 5]"
  unfolding jacobian_first_cycle_4
  by (simp add: val_gSwapGhostsDim desc_gSwapGhostsDim desc_jacobian_pinned val_jacobian_pinned
       periodicSelf_def nElements_def isGhostAlong_def coordAlong_def normalize_idx_def desc_phi4)

text \<open>
  In the second cycle the sweep computes 6 for the normalization node; the pin sets it to 0.
  The ghost cell at offset 18 holds 6 after the sweep and receives 19/4 from the interior
  node at offset 22, a neighbour of the normalization node.
\<close>

lemma sweep_second_cycle_4:
  "fst (jacobian_sweep (sizeProd phi4) (rank phi4) (val (jacobian periodicSelf phi4 rho4 1))
          (val rho4) (\<lambda>_. 0)) 21 = 6"
  using val_first_cycle_4 by (simp add: jacobian_sweep_val desc_phi4)

lemma pinned_second_cycle_4:
  "map (val (jacobian_pinned rho4 (jacobian periodicSelf phi4 rho4 1))) [18, 21, 22]
     = [6, 0, 19 / 4]"
  using val_first_cycle_4
  by (simp add: val_jacobian_pinned desc_first_cycle_4 nElements_def normalize_idx_def desc_phi4)

lemma val_second_cycle_4:
  "map (val (jacobian periodicSelf phi4 rho4 2)) [18, 22] = [19 / 4, 19 / 4]"
  unfolding jacobian_second_cycle_4 using pinned_second_cycle_4
  by (simp add: val_gSwapGhostsDim desc_gSwapGhostsDim desc_jacobian_pinned desc_first_cycle_4
       periodicSelf_def nElements_def isGhostAlong_def coordAlong_def)

theorem C7_pin_survives_exchange_witness:
  "(1::int) \<le> 2
   \<and> normalize_idx phi4 = 21 \<and> nElements phi4 = 36 \<and> rank phi4 = 3
   \<and> \<not> isGhostAlong phi4 1 21 \<and> \<not> isGhostAlong phi4 2 21
   \<and> fst (jacobian_sweep (sizeProd phi4) (rank phi4)
            (val (jacobian periodicSelf phi4 rho4 (2 - 1))) (val rho4) (\<lambda>_. 0)) 21 = 6
   \<and> val (jacobian_pinned rho4 (jacobian periodicSelf phi4 rho4 (2 - 1))) 21 = 0
   \<and> val (jacobian_pinned rho4 (jacobian periodicSelf phi4 rho4 (2 - 1))) 18 = 6
   \<and> val (jacobian periodicSelf phi4 rho4 2) 18 = 19 / 4
   \<and> val (jacobian periodicSelf phi4 rho4 2) 22 = 19 / 4
   \<and> val (jacobian periodicSelf phi4 rho4 2) 21 = 0"
proof -
  have n: "normalize_idx phi4 = 21" "nElements phi4 = 36" "rank phi4 = 3"
    by (simp_all add: normalize_idx_def nElements_def desc_phi4)
  have g: "\<not> isGhostAlong phi4 1 21" "\<not> isGhostAlong phi4 2 21"
    by (simp_all add: desc_phi4 isGhostAlong_def coordAlong_def)
  show ?thesis
    using C7_pin_survives_exchange_on_interior_node
            [of 2 phi4 rho4 periodicSelf, OF _ _ _ inner4 [of "\<lambda>_. 4", folded phi4_def]] n g
      sweep_second_cycle_4 pinned_second_cycle_4 val_second_cycle_4
    by simp
qed

section \<open>Acceleration\<close>

text \<open>The body of the particle loop adds the interpolated field to the three velocity components.\<close>

lemma puAcc3D1_particle_at:
  "puAcc3D1_particle ps E p v q =
     (if p \<le> q \<and> q < p + 3
      then v q + puInterp3D1 (at_offset ps p) (val E) (sizeProd E) (q - p)
      else v q)"
proof -
  have "q = p \<or> q = p + 1 \<or> q = p + 2 \<or> \<not> (p \<le> q \<and> q < p + 3)" by arith
  then show ?thesis
    unfolding puAcc3D1_particle_def Let_def
    by (auto simp: for_loop.simps)
qed

text \<open>The particle loop over the particles \<open>a, \<dots>, b - 1\<close>, at every offset \<open>q\<close>.\<close>

lemma puAcc3D1_particles_at:
  "for_loop (3 * a) (3 * b) 3 (puAcc3D1_particle ps E) v q =
     (if 3 * a \<le> q \<and> q < 3 * b
      then v q + puInterp3D1 (at_offset ps (3 * (q div 3))) (val E) (sizeProd E) (q mod 3)
      else v q)"
proof (induction "nat (b - a)" arbitrary: a v)
  case 0
  then have "3 * b \<le> 3 * a" by simp
  then show ?case by (simp add: for_loop_done)
next
  case (Suc n)
  then have lt: "3 * a < 3 * b" and n: "n = nat (b - (a + 1))" by simp_all
  have "for_loop (3 * a) (3 * b) 3 (puAcc3D1_particle ps E) v q
        = for_loop (3 * (a + 1)) (3 * b) 3 (puAcc3D1_particle ps E) (puAcc3D1_particle ps E (3 * a) v) q"
    using lt by (simp add: for_loop_step algebra_simps)
  also have "\<dots> = (if 3 * (a + 1) \<le> q \<and> q < 3 * b
      then puAcc3D1_particle ps E (3 * a) v q
           + puInterp3D1 (at_offset ps (3 * (q div 3))) (val E) (sizeProd E) (q mod 3)
      else puAcc3D1_particle ps E (3 * a) v q)"
    by (rule Suc.hyps(1) [OF n])
  also have "\<dots> = (if 3 * a \<le> q \<and> q < 3 * b
      then v q + puInterp3D1 (at_offset ps (3 * (q div 3))) (val E) (sizeProd E) (q mod 3)
      else v q)"
  proof (cases "3 * a \<le> q \<and> q < 3 * a + 3")
    case True
    then have "q div 3 = a" "q mod 3 = q - 3 * a" by presburger+
    with True lt show ?thesis by (simp add: puAcc3D1_particle_at)
  next
    case False
    then show ?thesis by (auto simp: puAcc3D1_particle_at)
  qed
  finally show ?case .
qed

text \<open>The interpolation is linear in the field values at the nodes it reads.\<close>

lemma puInterp3D1_scale:
  assumes "list_all (\<lambda>n. fld' (n + v) = c * fld (n + v)) (puInterp3D1_nodes pos3 sp)"
  shows "puInterp3D1 pos3 fld' sp v = c * puInterp3D1 pos3 fld sp v"
  using assms
  by (simp add: puInterp3D1_def puInterp3D1_nodes_def Let_def algebra_simps)


lemma desc_gMul:
  "rank (gMul g r) = rank g" "sizeProd (gMul g r) = sizeProd g" "nElements (gMul g r) = nElements g"
  by (simp_all add: gMul_def nElements_def)

lemma val_gMul:
  "val (gMul g r) k = (if 0 \<le> k \<and> k < nElements g then val g k * r else val g k)"
  by (simp add: gMul_def)

text \<open>
  C3 (amended). \<^verbatim>\<open>puAcc3D1\<close> rescales the field in place by \<open>renormE[s]\<close> after the particles
  of species \<open>s\<close> have been accelerated. For a population whose species intervals are ordered
  and disjoint, every live particle \<open>i\<close> of every species \<open>s\<close> whose eight corner nodes lie
  inside the value array of \<open>E\<close> is updated, in each velocity component \<open>d\<close>, by
  \<open>v \<leftarrow> v + (renormE[0] * \<dots> * renormE[s-1]) * E_in(pos)\<close>, where \<open>E_in(pos)\<close> is the trilinear
  interpolation of the value array at entry to the call at the position of the particle (in
  exact arithmetic). The factor is the product of the rescalings of the species before \<open>s\<close>;
  it is 1 for species 0, and \<open>renormE[s]\<close> itself does not enter.
\<close>

theorem C3_acceleration_uses_rescaled_field:
  assumes ordered: "\<forall>t u. t < u \<and> u < nSpecies pop \<longrightarrow> iStop pop ! t \<le> iStart pop ! u"
    and s: "s < nSpecies pop" and lo: "iStart pop ! s \<le> i" and hi: "i < iStop pop ! s"
    and d: "0 \<le> d" "d < 3"
    and inside: "nodesInsideE E (at_offset (pos pop) (3 * i))"
  shows "vel (fst (puAcc3D1 pop E)) (3 * i + d) =
           vel pop (3 * i + d)
           + (\<Prod>t<s. renormE pop ! t)
             * puInterp3D1 (at_offset (pos pop) (3 * i)) (val E) (sizeProd E) d"
proof -
  define c where "c j = (\<Prod>t<j. renormE pop ! t)" for j :: nat
  define dvE where "dvE = puInterp3D1 (at_offset (pos pop) (3 * i)) (val E) (sizeProd E) d"
  define Inv where "Inv j st \<longleftrightarrow>
      pos (fst st) = pos pop \<and> iStart (fst st) = iStart pop \<and> iStop (fst st) = iStop pop
      \<and> renormE (fst st) = renormE pop
      \<and> sizeProd (snd st) = sizeProd E \<and> nElements (snd st) = nElements E
      \<and> (\<forall>k. 0 \<le> k \<and> k < nElements E \<longrightarrow> val (snd st) k = c j * val E k)
      \<and> vel (fst st) (3 * i + d) =
          (if s < j then vel pop (3 * i + d) + c s * dvE else vel pop (3 * i + d))"
    for j :: nat and st :: "Population \<times> Grid"
  define body :: "nat \<Rightarrow> Population \<times> Grid \<Rightarrow> Population \<times> Grid"
    where "body = (\<lambda>s (pop1, E1).
          (let pStart = (iStart pop1 ! s) * 3;
               pStop = (iStop pop1 ! s) * 3;
               vel1 = for_loop pStart pStop 3 (puAcc3D1_particle (pos pop1) E1) (vel pop1)
           in (pop1\<lparr>vel := vel1\<rparr>, gMul E1 (renormE pop1 ! s))))"
  have q: "(3 * i + d) div 3 = i" "(3 * i + d) mod 3 = d" using d by presburger+
  have init: "Inv 0 (pop, E)" by (simp add: Inv_def c_def)
  have step: "Inv (Suc j) (body j st)" if j: "j < nSpecies pop" and inv: "Inv j st" for j st
  proof -
    obtain pop1 E1 where st: "st = (pop1, E1)" by (cases st)
    from inv st have p1: "pos pop1 = pos pop" "iStart pop1 = iStart pop" "iStop pop1 = iStop pop"
        "renormE pop1 = renormE pop" "sizeProd E1 = sizeProd E" "nElements E1 = nElements E"
      and scaled: "\<And>k. 0 \<le> k \<Longrightarrow> k < nElements E \<Longrightarrow> val E1 k = c j * val E k"
      and v: "vel pop1 (3 * i + d) =
          (if s < j then vel pop (3 * i + d) + c s * dvE else vel pop (3 * i + d))"
      by (simp_all add: Inv_def)
    let ?v1 = "for_loop (3 * (iStart pop ! j)) (3 * (iStop pop ! j)) 3
                 (puAcc3D1_particle (pos pop) E1) (vel pop1)"
    have b: "body j st = (pop1\<lparr>vel := ?v1\<rparr>, gMul E1 (renormE pop ! j))"
      by (simp add: body_def st Let_def p1 mult.commute)
    have v1: "?v1 (3 * i + d) =
        (if iStart pop ! j \<le> i \<and> i < iStop pop ! j
         then vel pop1 (3 * i + d)
              + puInterp3D1 (at_offset (pos pop) (3 * i)) (val E1) (sizeProd E) d
         else vel pop1 (3 * i + d))"
      using d by (simp add: puAcc3D1_particles_at q p1)
    have vel': "?v1 (3 * i + d) =
        (if s < Suc j then vel pop (3 * i + d) + c s * dvE else vel pop (3 * i + d))"
    proof (cases "j = s")
      case True
      have "list_all (\<lambda>n. val E1 (n + d) = c s * val E (n + d))
              (puInterp3D1_nodes (at_offset (pos pop) (3 * i)) (sizeProd E))"
        using inside d scaled True
        by (auto simp: nodesInsideE_def list_all_iff)
      then have "puInterp3D1 (at_offset (pos pop) (3 * i)) (val E1) (sizeProd E) d = c s * dvE"
        unfolding dvE_def by (rule puInterp3D1_scale)
      with True lo hi v v1 show ?thesis by simp
    next
      case False
      have "\<not> (iStart pop ! j \<le> i \<and> i < iStop pop ! j)"
      proof (cases "j < s")
        case True
        with ordered s have "iStop pop ! j \<le> iStart pop ! s" by blast
        with lo show ?thesis by simp
      next
        case False
        with \<open>j \<noteq> s\<close> have "s < j" by simp
        with ordered j have "iStop pop ! s \<le> iStart pop ! j" by blast
        with hi show ?thesis by simp
      qed
      with False v v1 show ?thesis by auto
    qed
    have sc': "val (gMul E1 (renormE pop ! j)) k = c (Suc j) * val E k"
      if "0 \<le> k" "k < nElements E" for k
      using that scaled [OF that] by (simp add: val_gMul p1 c_def)
    show ?thesis
      unfolding b Inv_def using vel' sc' by (simp add: p1 desc_gMul)
  qed
  have "Inv (nSpecies pop) (for_nat 0 (nSpecies pop) body (pop, E))"
    by (rule for_nat_indexed [where I = Inv, OF init]) (use step in simp_all)
  then have "Inv (nSpecies pop) (puAcc3D1 pop E)"
    by (simp add: puAcc3D1_def body_def)
  then show ?thesis using s by (simp add: Inv_def c_def dvE_def)
qed


lemma twoPop_ordered:
  "\<forall>t u. t < u \<and> u < nSpecies (twoPop ps vs) \<longrightarrow> iStop (twoPop ps vs) ! t \<le> iStart (twoPop ps vs) ! u"
proof (intro allI impI)
  fix t u :: nat assume "t < u \<and> u < nSpecies (twoPop ps vs)"
  then have "t = 0 \<and> u = 1" by (auto simp: twoPop_def)
  then show "iStop (twoPop ps vs) ! t \<le> iStart (twoPop ps vs) ! u" by (simp add: twoPop_def)
qed

lemma halves_inside:
  "nodesInsideE (gridE 2 v) (at_offset (pos (twoPop [1/2, 1/2, 1/2, 1/2, 1/2, 1/2] vs)) (3 * 1))"
  by (simp add: nodesInsideE_def puInterp3D1_nodes_def gridE_def twoPop_def at_offset_def store_def
        c_int_cast_def nElements_def Let_def)

lemma interp_halves_const:
  "puInterp3D1 (at_offset (pos (twoPop [1/2, 1/2, 1/2, 1/2, 1/2, 1/2] vs)) 3) (\<lambda>_. 1) sp 0 = 1"
  by (simp add: puInterp3D1_def twoPop_def at_offset_def store_def c_int_cast_def Let_def)

theorem C3_acceleration_uses_rescaled_field_witness:
  "(1::nat) < nSpecies (twoPop [1/2, 1/2, 1/2, 1/2, 1/2, 1/2] [0, 0, 0, 0, 0, 0])
   \<and> iStop (twoPop [1/2, 1/2, 1/2, 1/2, 1/2, 1/2] [0, 0, 0, 0, 0, 0]) ! 0
       \<le> iStart (twoPop [1/2, 1/2, 1/2, 1/2, 1/2, 1/2] [0, 0, 0, 0, 0, 0]) ! 1
   \<and> iStart (twoPop [1/2, 1/2, 1/2, 1/2, 1/2, 1/2] [0, 0, 0, 0, 0, 0]) ! 1 \<le> 1
   \<and> 1 < iStop (twoPop [1/2, 1/2, 1/2, 1/2, 1/2, 1/2] [0, 0, 0, 0, 0, 0]) ! 1
   \<and> nodesInsideE (gridE 2 (\<lambda>_. 1))
        (at_offset (pos (twoPop [1/2, 1/2, 1/2, 1/2, 1/2, 1/2] [0, 0, 0, 0, 0, 0])) 3)
   \<and> renormE (twoPop [1/2, 1/2, 1/2, 1/2, 1/2, 1/2] [0, 0, 0, 0, 0, 0]) = [2, 3]
   \<and> vel (fst (puAcc3D1 (twoPop [1/2, 1/2, 1/2, 1/2, 1/2, 1/2] [0, 0, 0, 0, 0, 0])
                  (gridE 2 (\<lambda>_. 1)))) 3 = 2"
  using C3_acceleration_uses_rescaled_field
          [of "twoPop [1/2, 1/2, 1/2, 1/2, 1/2, 1/2] [0, 0, 0, 0, 0, 0]" 1 1 0 "gridE 2 (\<lambda>_. 1)",
           OF twoPop_ordered _ _ _ _ _ halves_inside]
        halves_inside [of "\<lambda>_. 1" "[0, 0, 0, 0, 0, 0]"]
        interp_halves_const [of "[0, 0, 0, 0, 0, 0]" "sizeProd (gridE 2 (\<lambda>_. 1))"]
  by (simp add: twoPop_def store_def gridE_def)

text \<open>
  C3, as stated, fails: for a single species with \<open>renormE[0] = 2\<close>, one particle at rest at
  \<open>(1/2, 1/2, 1/2)\<close> and the constant field 1, the interpolated entry-time field is 1 and the
  velocity after the call is 1, not \<open>0 + 2 * 1\<close>.
\<close>

theorem C3_first_species_not_rescaled:
  "vel (onePop [1/2, 1/2, 1/2] [0, 0, 0]) 0 = 0
   \<and> renormE (onePop [1/2, 1/2, 1/2] [0, 0, 0]) ! 0 = 2
   \<and> puInterp3D1 (at_offset (pos (onePop [1/2, 1/2, 1/2] [0, 0, 0])) 0)
         (val (gridE 2 (\<lambda>_. 1))) (sizeProd (gridE 2 (\<lambda>_. 1))) 0 = 1
   \<and> vel (fst (puAcc3D1 (onePop [1/2, 1/2, 1/2] [0, 0, 0]) (gridE 2 (\<lambda>_. 1)))) 0 = 1
   \<and> vel (fst (puAcc3D1 (onePop [1/2, 1/2, 1/2] [0, 0, 0]) (gridE 2 (\<lambda>_. 1)))) 0
       \<noteq> vel (onePop [1/2, 1/2, 1/2] [0, 0, 0]) 0
          + renormE (onePop [1/2, 1/2, 1/2] [0, 0, 0]) ! 0
            * puInterp3D1 (at_offset (pos (onePop [1/2, 1/2, 1/2] [0, 0, 0])) 0)
                (val (gridE 2 (\<lambda>_. 1))) (sizeProd (gridE 2 (\<lambda>_. 1))) 0"
  unfolding puAcc3D1_def onePop_def gridE_def puAcc3D1_particle_def Let_def
  by (simp add: for_loop.simps for_nat.simps puInterp3D1_def at_offset_def store_def
        c_int_cast_def Let_def)

section \<open>Distribution\<close>

text \<open>Adding to one element of an array adds as much to the sum of the array.\<close>

lemma sum_fun_upd_add:
  fixes f :: "int \<Rightarrow> real"
  assumes "finite S" and "p \<in> S"
  shows "sum (f(p := f p + w)) S = sum f S + w"
proof -
  have "sum (f(p := f p + w)) S = (f(p := f p + w)) p + sum (f(p := f p + w)) (S - {p})"
    using assms by (rule sum.remove)
  also have "sum (f(p := f p + w)) (S - {p}) = sum f (S - {p})"
    by (rule sum.cong) auto
  also have "(f(p := f p + w)) p + sum f (S - {p}) = (f p + sum f (S - {p})) + w" by simp
  also have "f p + sum f (S - {p}) = sum f S" using assms by (rule sum.remove [symmetric])
  finally show ?thesis .
qed

text \<open>The eight trilinear weights sum to 1.\<close>

lemma weights_sum_to_one:
  fixes x y z :: real
  shows "(1 - x) * (1 - y) * (1 - z) + x * (1 - y) * (1 - z) + (1 - x) * y * (1 - z)
         + x * y * (1 - z) + (1 - x) * (1 - y) * z + x * (1 - y) * z + (1 - x) * y * z
         + x * y * z = 1"
  by (simp add: algebra_simps)

text \<open>
  The body of the particle loop adds 1 to the grid sum when the eight nodes it writes lie
  inside the array (they need not be distinct).
\<close>

lemma puDistr3D1_particle_sum:
  assumes "list_all (\<lambda>q. 0 \<le> q \<and> q < n) (puDistr3D1_nodes ps sp i)"
  shows "sum (puDistr3D1_particle ps sp i v) {0..<n} = sum v {0..<n} + 1"
proof -
  define pos3 where "pos3 = at_offset ps (3 * i)"
  define x where "x = pos3 0 - real_of_int (c_int_cast (pos3 0))"
  define y where "y = pos3 1 - real_of_int (c_int_cast (pos3 1))"
  define z where "z = pos3 2 - real_of_int (c_int_cast (pos3 2))"
  define p where "p = c_int_cast (pos3 0) + c_int_cast (pos3 1) * (sp ! 2) + c_int_cast (pos3 2) * (sp ! 3)"
  have nodes: "puDistr3D1_nodes ps sp i =
      [p, p + 1, p + sp ! 2, p + sp ! 2 + 1, p + sp ! 3, p + sp ! 3 + 1,
       p + sp ! 3 + sp ! 2, p + sp ! 3 + sp ! 2 + 1]"
    by (simp add: puDistr3D1_nodes_def Let_def p_def pos3_def)
  have mem: "p \<in> {0..<n}" "p + 1 \<in> {0..<n}" "p + sp ! 2 \<in> {0..<n}" "p + sp ! 2 + 1 \<in> {0..<n}"
    "p + sp ! 3 \<in> {0..<n}" "p + sp ! 3 + 1 \<in> {0..<n}" "p + sp ! 3 + sp ! 2 \<in> {0..<n}"
    "p + sp ! 3 + sp ! 2 + 1 \<in> {0..<n}"
    using assms unfolding nodes by simp_all
  have fin: "finite {0..<n}" by simp
  have "sum (puDistr3D1_particle ps sp i v) {0..<n} =
        sum v {0..<n}
        + (1 - x) * (1 - y) * (1 - z) + x * (1 - y) * (1 - z) + (1 - x) * y * (1 - z)
        + x * y * (1 - z) + (1 - x) * (1 - y) * z + x * (1 - y) * z + (1 - x) * y * z
        + x * y * z"
    unfolding puDistr3D1_particle_def Let_def
      pos3_def [symmetric] x_def [symmetric] y_def [symmetric] z_def [symmetric] p_def [symmetric]
    by (simp only: sum_fun_upd_add [OF fin] mem)
  then show ?thesis using weights_sum_to_one [of x y z] by simp
qed


text \<open>The particle loop over the particles \<open>a, \<dots>, b - 1\<close> adds their number.\<close>

lemma puDistr3D1_particles_sum:
  assumes "a \<le> b"
    and "\<forall>i. a \<le> i \<and> i < b \<longrightarrow> list_all (\<lambda>q. 0 \<le> q \<and> q < n) (puDistr3D1_nodes ps sp i)"
  shows "sum (for_loop a b 1 (puDistr3D1_particle ps sp) v) {0..<n}
         = sum v {0..<n} + real_of_int (b - a)"
  using assms
proof (induction "nat (b - a)" arbitrary: a v)
  case 0
  then have "b \<le> a" by simp
  with "0.prems" show ?case by (simp add: for_loop_done)
next
  case (Suc k)
  then have lt: "a < b" and k: "k = nat (b - (a + 1))" and le: "a + 1 \<le> b" by simp_all
  have inside: "list_all (\<lambda>q. 0 \<le> q \<and> q < n) (puDistr3D1_nodes ps sp a)"
    using Suc.prems(2) lt by simp
  have rest: "\<forall>i. a + 1 \<le> i \<and> i < b \<longrightarrow>
                list_all (\<lambda>q. 0 \<le> q \<and> q < n) (puDistr3D1_nodes ps sp i)"
    using Suc.prems(2) by simp
  have "sum (for_loop a b 1 (puDistr3D1_particle ps sp) v) {0..<n}
        = sum (for_loop (a + 1) b 1 (puDistr3D1_particle ps sp) (puDistr3D1_particle ps sp a v)) {0..<n}"
    using lt by (simp add: for_loop_step)
  also have "\<dots> = sum (puDistr3D1_particle ps sp a v) {0..<n} + real_of_int (b - (a + 1))"
    by (rule Suc.hyps(1) [OF k le rest])
  also have "\<dots> = sum v {0..<n} + real_of_int (b - a)"
    by (simp add: puDistr3D1_particle_sum [OF inside])
  finally show ?case .
qed

lemma gridSum_gMul: "gridSum (gMul g r) = gridSum g * r"
  by (simp add: gridSum_def gMul_def nElements_def sum_distrib_right)

lemma gridSum_gZero: "gridSum (gZero g) = 0"
  by (simp add: gridSum_def gZero_def nElements_def)

text \<open>The grid sum that \<^verbatim>\<open>puDistr3D1\<close> leaves behind.\<close>

lemma puDistr3D1_gridSum:
  assumes wf: "\<forall>s<nSpecies pop. iStart pop ! s \<le> iStop pop ! s"
    and inside: "\<forall>s i. s < nSpecies pop \<and> iStart pop ! s \<le> i \<and> i < iStop pop ! s
                   \<longrightarrow> nodesInsideRho rho (pos pop) i"
  shows "gridSum (puDistr3D1 pop rho) =
           (\<Sum>s<nSpecies pop. real_of_int (iStop pop ! s - iStart pop ! s)
                                 * (\<Prod>t\<in>{s..<nSpecies pop}. renormRho pop ! t))"
proof -
  define N where "N s = real_of_int (iStop pop ! s - iStart pop ! s)" for s
  define r where "r t = renormRho pop ! t" for t
  define Inv where "Inv j g \<longleftrightarrow>
      sizeProd g = sizeProd rho \<and> rank g = rank rho
      \<and> gridSum g = (\<Sum>s<j. N s * (\<Prod>t\<in>{s..<j}. r t))" for j :: nat and g :: Grid
  define body where "body = (\<lambda>s rho1.
          gMul (rho1\<lparr>val := for_loop (iStart pop ! s) (iStop pop ! s) 1
                               (puDistr3D1_particle (pos pop) (sizeProd rho1)) (val rho1)\<rparr>)
               (renormRho pop ! s))"
  have init: "Inv 0 (gZero rho)"
    by (simp add: Inv_def gridSum_gZero) (simp add: gZero_def)
  have step: "Inv (Suc j) (body j g)" if j: "j < nSpecies pop" and inv: "Inv j g" for j g
  proof -
    from inv have sp: "sizeProd g = sizeProd rho" and rk: "rank g = rank rho"
      and gs: "gridSum g = (\<Sum>s<j. N s * (\<Prod>t\<in>{s..<j}. r t))"
      by (simp_all add: Inv_def)
    have ne: "nElements g = nElements rho" by (simp add: nElements_def sp rk)
    let ?v = "for_loop (iStart pop ! j) (iStop pop ! j) 1
                (puDistr3D1_particle (pos pop) (sizeProd rho)) (val g)"
    have le: "iStart pop ! j \<le> iStop pop ! j" using wf j by simp
    have ins: "\<forall>i. iStart pop ! j \<le> i \<and> i < iStop pop ! j \<longrightarrow>
        list_all (\<lambda>q. 0 \<le> q \<and> q < nElements rho) (puDistr3D1_nodes (pos pop) (sizeProd rho) i)"
      using inside j by (simp add: nodesInsideRho_def)
    have "sum ?v {0..<nElements rho} = sum (val g) {0..<nElements rho} + N j"
      unfolding N_def by (rule puDistr3D1_particles_sum [OF le ins])
    then have dep: "gridSum (g\<lparr>val := ?v\<rparr>) = gridSum g + N j"
      by (simp add: gridSum_def nElements_def sp rk)
    have "gridSum (body j g) = (gridSum g + N j) * r j"
      by (simp add: body_def gridSum_gMul sp dep r_def)
    also have "\<dots> = (\<Sum>s<j. N s * (\<Prod>t\<in>{s..<j}. r t) * r j) + N j * r j"
      by (simp add: gs distrib_right sum_distrib_right)
    also have "(\<Sum>s<j. N s * (\<Prod>t\<in>{s..<j}. r t) * r j) = (\<Sum>s<j. N s * (\<Prod>t\<in>{s..<Suc j}. r t))"
      by (rule sum.cong) (simp_all add: prod.atLeastLessThan_Suc)
    finally have "gridSum (body j g) = (\<Sum>s<Suc j. N s * (\<Prod>t\<in>{s..<Suc j}. r t))"
      by simp
    moreover have "sizeProd (body j g) = sizeProd rho" "rank (body j g) = rank rho"
      by (simp_all add: body_def gMul_def sp rk)
    ultimately show ?thesis by (simp add: Inv_def)
  qed
  have "Inv (nSpecies pop) (for_nat 0 (nSpecies pop) body (gZero rho))"
    by (rule for_nat_indexed [where I = Inv, OF init]) (use step in simp_all)
  then show ?thesis
    by (simp add: Inv_def puDistr3D1_def body_def N_def r_def)
qed


text \<open>
  C4 (amended). For every population with \<open>iStart[s] \<le> iStop[s]\<close> whose live particles place
  all eight trilinear corner nodes inside the rho grid, \<^verbatim>\<open>puDistr3D1\<close> zeroes rho and deposits,
  per particle, eight corner weights that sum to exactly 1 (in exact arithmetic); rho is
  rescaled in place by \<open>renormRho[s]\<close> after the deposit of each species \<open>s\<close>, so with \<open>N_s\<close>
  live particles of species \<open>s\<close> the grid sum after the call is the sum over \<open>s\<close> of
  \<open>N_s * renormRho[s] * \<dots> * renormRho[nSpecies-1]\<close>. For a single species this is
  \<open>N * renormRho[0]\<close>.
\<close>

theorem C4_grid_sum_after_distribution:
  assumes "\<forall>s<nSpecies pop. iStart pop ! s \<le> iStop pop ! s"
    and "\<forall>s i. s < nSpecies pop \<and> iStart pop ! s \<le> i \<and> i < iStop pop ! s
           \<longrightarrow> nodesInsideRho rho (pos pop) i"
  shows "gridSum (puDistr3D1 pop rho) =
           (\<Sum>s<nSpecies pop. real_of_int (iStop pop ! s - iStart pop ! s)
                                 * (\<Prod>t\<in>{s..<nSpecies pop}. renormRho pop ! t))"
  using assms by (rule puDistr3D1_gridSum)


lemma twoPop_wf: "\<forall>s<nSpecies (twoPop ps vs). iStart (twoPop ps vs) ! s \<le> iStop (twoPop ps vs) ! s"
  if "3 \<le> length ps"
proof (intro allI impI)
  fix s assume "s < nSpecies (twoPop ps vs)"
  then have "s = 0 \<or> s = 1" by (auto simp: twoPop_def)
  then show "iStart (twoPop ps vs) ! s \<le> iStop (twoPop ps vs) ! s"
    using that by (auto simp: twoPop_def)
qed

text \<open>The particles of the concrete populations below have their nodes inside the grid.\<close>

lemmas inside_eval = nodesInsideRho_def puDistr3D1_nodes_def grid3D_def at_offset_def
          store_def c_int_cast_def nElements_def Let_def

lemma inside0: "nodesInsideRho (grid3D 2 v) (store (3/2 # 3/2 # 3/2 # ps) 0) 0"
  by (simp add: inside_eval)

lemma inside1: "nodesInsideRho (grid3D 2 v) (store [3/2, 3/2, 3/2, 1/2, 1/2, 1/2, 1/4, 1/2, 3/4] 0) 1"
  by (simp add: inside_eval)

lemma inside2: "nodesInsideRho (grid3D 2 v) (store [3/2, 3/2, 3/2, 1/2, 1/2, 1/2, 1/4, 1/2, 3/4] 0) 2"
  by (simp add: inside_eval)


lemma three_inside:
  "\<forall>s i. s < nSpecies (twoPop [3/2, 3/2, 3/2, 1/2, 1/2, 1/2, 1/4, 1/2, 3/4] vs)
         \<and> iStart (twoPop [3/2, 3/2, 3/2, 1/2, 1/2, 1/2, 1/4, 1/2, 3/4] vs) ! s \<le> i
         \<and> i < iStop (twoPop [3/2, 3/2, 3/2, 1/2, 1/2, 1/2, 1/4, 1/2, 3/4] vs) ! s
     \<longrightarrow> nodesInsideRho (grid3D 2 v) (pos (twoPop [3/2, 3/2, 3/2, 1/2, 1/2, 1/2, 1/4, 1/2, 3/4] vs)) i"
proof (intro allI impI)
  fix s :: nat and i :: int
  assume a: "s < nSpecies (twoPop [3/2, 3/2, 3/2, 1/2, 1/2, 1/2, 1/4, 1/2, 3/4] vs)
         \<and> iStart (twoPop [3/2, 3/2, 3/2, 1/2, 1/2, 1/2, 1/4, 1/2, 3/4] vs) ! s \<le> i
         \<and> i < iStop (twoPop [3/2, 3/2, 3/2, 1/2, 1/2, 1/2, 1/4, 1/2, 3/4] vs) ! s"
  then have "s = 0 \<or> s = 1" by (auto simp: twoPop_def)
  with a have "i = 0 \<or> i = 1 \<or> i = 2" by (auto simp: twoPop_def)
  moreover have "pos (twoPop [3/2, 3/2, 3/2, 1/2, 1/2, 1/2, 1/4, 1/2, 3/4] vs)
      = store [3/2, 3/2, 3/2, 1/2, 1/2, 1/2, 1/4, 1/2, 3/4] 0"
    by (simp add: twoPop_def)
  ultimately show "nodesInsideRho (grid3D 2 v) (pos (twoPop [3/2, 3/2, 3/2, 1/2, 1/2, 1/2, 1/4, 1/2, 3/4] vs)) i"
    using inside0 [of v "[1/2, 1/2, 1/2, 1/4, 1/2, 3/4]"] inside1 [of v] inside2 [of v] by metis
qed

lemma one_inside:
  "\<forall>s i. s < nSpecies (twoPop [3/2, 3/2, 3/2] vs)
         \<and> iStart (twoPop [3/2, 3/2, 3/2] vs) ! s \<le> i
         \<and> i < iStop (twoPop [3/2, 3/2, 3/2] vs) ! s
     \<longrightarrow> nodesInsideRho (grid3D 2 v) (pos (twoPop [3/2, 3/2, 3/2] vs)) i"
proof (intro allI impI)
  fix s :: nat and i :: int
  assume a: "s < nSpecies (twoPop [3/2, 3/2, 3/2] vs)
         \<and> iStart (twoPop [3/2, 3/2, 3/2] vs) ! s \<le> i
         \<and> i < iStop (twoPop [3/2, 3/2, 3/2] vs) ! s"
  then have "s = 0 \<or> s = 1" by (auto simp: twoPop_def)
  with a have "i = 0" by (auto simp: twoPop_def)
  moreover have "pos (twoPop [3/2, 3/2, 3/2] vs) = store [3/2, 3/2, 3/2] 0"
    by (simp add: twoPop_def)
  ultimately show "nodesInsideRho (grid3D 2 v) (pos (twoPop [3/2, 3/2, 3/2] vs)) i"
    using inside0 [of v "[]"] by simp
qed

lemma twoPop_sum:
  "(\<Sum>s<nSpecies (twoPop ps vs). real_of_int (iStop (twoPop ps vs) ! s - iStart (twoPop ps vs) ! s)
                                 * (\<Prod>t\<in>{s..<nSpecies (twoPop ps vs)}. renormRho (twoPop ps vs) ! t))
   = 1 * (2 * 3) + real_of_int (int (length ps) div 3 - 1) * 3"
  by (simp add: twoPop_def numeral_2_eq_2 prod.atLeast_Suc_lessThan)


theorem C4_grid_sum_after_distribution_witness:
  "iStart (twoPop [3/2, 3/2, 3/2, 1/2, 1/2, 1/2, 1/4, 1/2, 3/4] []) = [0, 1]
   \<and> iStop (twoPop [3/2, 3/2, 3/2, 1/2, 1/2, 1/2, 1/4, 1/2, 3/4] []) = [1, 3]
   \<and> renormRho (twoPop [3/2, 3/2, 3/2, 1/2, 1/2, 1/2, 1/4, 1/2, 3/4] []) = [2, 3]
   \<and> nodesInsideRho (grid3D 2 (\<lambda>_. 5)) (pos (twoPop [3/2, 3/2, 3/2, 1/2, 1/2, 1/2, 1/4, 1/2, 3/4] [])) 0
   \<and> nodesInsideRho (grid3D 2 (\<lambda>_. 5)) (pos (twoPop [3/2, 3/2, 3/2, 1/2, 1/2, 1/2, 1/4, 1/2, 3/4] [])) 1
   \<and> nodesInsideRho (grid3D 2 (\<lambda>_. 5)) (pos (twoPop [3/2, 3/2, 3/2, 1/2, 1/2, 1/2, 1/4, 1/2, 3/4] [])) 2
   \<and> gridSum (puDistr3D1 (twoPop [3/2, 3/2, 3/2, 1/2, 1/2, 1/2, 1/4, 1/2, 3/4] [])
                 (grid3D 2 (\<lambda>_. 5))) = 1 * (2 * 3) + 2 * 3"
proof -
  let ?P = "twoPop [3/2, 3/2, 3/2, 1/2, 1/2, 1/2, 1/4, 1/2, 3/4] []"
  have p: "pos ?P = store [3/2, 3/2, 3/2, 1/2, 1/2, 1/2, 1/4, 1/2, 3/4] 0"
    by (simp add: twoPop_def)
  have d: "iStart ?P = [0, 1]" "iStop ?P = [1, 3]" "renormRho ?P = [2, 3]"
    by (simp_all add: twoPop_def)
  have ins: "nodesInsideRho (grid3D 2 (\<lambda>_. 5)) (pos ?P) 0"
      "nodesInsideRho (grid3D 2 (\<lambda>_. 5)) (pos ?P) 1"
      "nodesInsideRho (grid3D 2 (\<lambda>_. 5)) (pos ?P) 2"
    unfolding p by (rule inside0 inside1 inside2)+
  have "gridSum (puDistr3D1 ?P (grid3D 2 (\<lambda>_. 5))) =
        (\<Sum>s<nSpecies ?P. real_of_int (iStop ?P ! s - iStart ?P ! s)
                                 * (\<Prod>t\<in>{s..<nSpecies ?P}. renormRho ?P ! t))"
    by (rule C4_grid_sum_after_distribution [OF twoPop_wf three_inside]) simp
  also have "\<dots> = 1 * (2 * 3) + 2 * 3"
    unfolding twoPop_sum by simp
  finally have g: "gridSum (puDistr3D1 ?P (grid3D 2 (\<lambda>_. 5))) = 1 * (2 * 3) + 2 * 3" .
  from d ins g show ?thesis by (intro conjI)
qed

text \<open>
  The code evaluated at the input of the next theorem: each of the eight nodes around the
  particle at \<open>(3/2, 3/2, 3/2)\<close> receives the weight \<open>1/8\<close>, rescaled by 2 and then by 3;
  elements away from the particle are 0, whatever the grid held before.
\<close>

lemma puDistr3D1_example_nodes:
  "map (val (puDistr3D1 (twoPop [3/2, 3/2, 3/2] []) (grid3D 2 (\<lambda>_. 5)))) [21, 22, 25, 26, 37, 38, 41, 42]
     = [3/4, 3/4, 3/4, 3/4, 3/4, 3/4, 3/4, 3/4]
   \<and> map (val (puDistr3D1 (twoPop [3/2, 3/2, 3/2] []) (grid3D 2 (\<lambda>_. 5)))) [0, 20, 63] = [0, 0, 0]"
  unfolding puDistr3D1_def twoPop_def grid3D_def
  by (simp add: for_nat.simps for_loop.simps puDistr3D1_particle_def gMul_def gZero_def nElements_def
       at_offset_def store_def c_int_cast_def Let_def)

text \<open>
  C4, as stated, fails: with two species, rescaling factors 2 and 3, one live particle of
  species 0 at \<open>(3/2, 3/2, 3/2)\<close> and no live particle of species 1, depositing the \<open>N = 1\<close>
  particles of species 0 leaves the grid sum 6, not \<open>N * renormRho[0] = 2\<close>.
\<close>

theorem C4_later_species_rescale_earlier_deposit:
  "iStop (twoPop [3/2, 3/2, 3/2] []) ! 0 - iStart (twoPop [3/2, 3/2, 3/2] []) ! 0 = 1
   \<and> iStop (twoPop [3/2, 3/2, 3/2] []) ! 1 - iStart (twoPop [3/2, 3/2, 3/2] []) ! 1 = 0
   \<and> renormRho (twoPop [3/2, 3/2, 3/2] []) ! 0 = 2
   \<and> nodesInsideRho (grid3D 2 (\<lambda>_. 5)) (pos (twoPop [3/2, 3/2, 3/2] [])) 0
   \<and> gridSum (puDistr3D1 (twoPop [3/2, 3/2, 3/2] []) (grid3D 2 (\<lambda>_. 5))) = 6
   \<and> gridSum (puDistr3D1 (twoPop [3/2, 3/2, 3/2] []) (grid3D 2 (\<lambda>_. 5)))
       \<noteq> real_of_int (iStop (twoPop [3/2, 3/2, 3/2] []) ! 0 - iStart (twoPop [3/2, 3/2, 3/2] []) ! 0)
          * renormRho (twoPop [3/2, 3/2, 3/2] []) ! 0"
proof -
  let ?P = "twoPop [3/2, 3/2, 3/2] []"
  have p: "pos ?P = store [3/2, 3/2, 3/2] 0" by (simp add: twoPop_def)
  have d: "iStop ?P ! 0 - iStart ?P ! 0 = 1" "iStop ?P ! 1 - iStart ?P ! 1 = 0" "renormRho ?P ! 0 = 2"
    by (simp_all add: twoPop_def)
  have ins: "nodesInsideRho (grid3D 2 (\<lambda>_. 5)) (pos ?P) 0"
    unfolding p by (rule inside0)
  have "gridSum (puDistr3D1 ?P (grid3D 2 (\<lambda>_. 5))) =
        (\<Sum>s<nSpecies ?P. real_of_int (iStop ?P ! s - iStart ?P ! s)
                                 * (\<Prod>t\<in>{s..<nSpecies ?P}. renormRho ?P ! t))"
    by (rule puDistr3D1_gridSum [OF twoPop_wf one_inside]) simp
  also have "\<dots> = 6"
    unfolding twoPop_sum by simp
  finally have g: "gridSum (puDistr3D1 ?P (grid3D 2 (\<lambda>_. 5))) = 6" .
  have ne: "gridSum (puDistr3D1 ?P (grid3D 2 (\<lambda>_. 5)))
       \<noteq> real_of_int (iStop ?P ! 0 - iStart ?P ! 0) * renormRho ?P ! 0"
    unfolding g d by simp
  from d ins g ne show ?thesis by (intro conjI)
qed

section \<open>Extraction of emigrants\<close>

text \<open>The neighbour index lies in \<open>[0, 27)\<close>, and is 13 for a particle within the thresholds.\<close>

lemma neighbor3D_range: "0 \<le> neighbor3D thr ps p \<and> neighbor3D thr ps p < 27"
  by (simp add: neighbor3D_def c_bool_def Let_def)

lemma neighbor3D_within: "withinThresholds3D thr ps p \<Longrightarrow> neighbor3D thr ps p = 13"
  by (simp add: neighbor3D_def withinThresholds3D_def c_bool_def Let_def)

text \<open>Distinct pairs of neighbour and species have distinct slots in \<^verbatim>\<open>nEmigrants\<close>.\<close>

lemma count_index_eq:
  fixes n ne :: int and s s' nSp :: nat
  assumes "s < nSp" "s' < nSp"
  shows "n * int nSp + int s' = ne * int nSp + int s \<longleftrightarrow> n = ne \<and> s' = s"
proof
  assume eq: "n * int nSp + int s' = ne * int nSp + int s"
  have "(n * int nSp + int s') mod int nSp = int s'" using assms by simp
  moreover have "(ne * int nSp + int s) mod int nSp = int s" using assms by simp
  ultimately have s: "s' = s" using eq by simp
  with eq have "n * int nSp = ne * int nSp" by simp
  with assms have "n = ne" by simp
  with s show "n = ne \<and> s' = s" by simp
qed simp

lemma count_after_increment:
  fixes nE :: longs
  assumes "s < nSp" "s' < nSp" "0 \<le> ne" "ne < N"
  shows "(\<Sum>n = 0..<N. (nE(ne * int nSp + int s := nE (ne * int nSp + int s) + 1)) (n * int nSp + int s'))
         = (\<Sum>n = 0..<N. nE (n * int nSp + int s')) + (if s' = s then 1 else 0)"
proof (cases "s' = s")
  case False
  have "(\<Sum>n = 0..<N. (nE(ne * int nSp + int s := nE (ne * int nSp + int s) + 1)) (n * int nSp + int s'))
        = (\<Sum>n = 0..<N. nE (n * int nSp + int s'))"
    by (rule sum.cong) (use False count_index_eq [OF assms(1,2)] in auto)
  with False show ?thesis by simp
next
  case True
  have mem: "ne \<in> {0..<N}" using assms by simp
  have "(\<Sum>n = 0..<N. (nE(ne * int nSp + int s := nE (ne * int nSp + int s) + 1)) (n * int nSp + int s))
        = (\<Sum>n = 0..<N. nE (n * int nSp + int s) + (if n = ne then 1 else 0))"
    by (rule sum.cong) (use count_index_eq [OF assms(1,1)] in auto)
  also have "\<dots> = (\<Sum>n = 0..<N. nE (n * int nSp + int s)) + 1"
    using mem by (simp add: sum.distrib)
  finally show ?thesis using True by simp
qed

text \<open>A property that every emigration preserves holds after the particle loop.\<close>

lemma puExtractEmigrants3D_loop_invariant:
  "P st \<Longrightarrow>
   (\<And>p pStop st. P st \<Longrightarrow> P (emigrate3D nSp s (neighbor3D thr (pos (fst st)) p) p pStop st)) \<Longrightarrow>
   P (puExtractEmigrants3D_loop thr center nSp s p pStop st)"
proof (induction thr center nSp s p pStop st rule: puExtractEmigrants3D_loop.induct)
  case (1 thr center nSp s p pStop st)
  show ?case
  proof (cases "p < pStop")
    case False
    then show ?thesis using "1.prems"(1) by (subst puExtractEmigrants3D_loop.simps) simp
  next
    case True
    show ?thesis
    proof (cases "neighbor3D thr (pos (fst st)) p \<noteq> center")
      case ne: True
      have "P (emigrate3D nSp s (neighbor3D thr (pos (fst st)) p) p pStop st)"
        using "1.prems" by blast
      then have "P (puExtractEmigrants3D_loop thr center nSp s (p - 3 + 3) (pStop - 3)
                (emigrate3D nSp s (neighbor3D thr (pos (fst st)) p) p pStop st))"
        using "1.IH"(1) [OF True ne] "1.prems"(2) by blast
      then show ?thesis using True ne by (subst puExtractEmigrants3D_loop.simps) simp
    next
      case eq: False
      have "P (puExtractEmigrants3D_loop thr center nSp s (p + 3) pStop st)"
        using "1.IH"(2) [OF True eq] "1.prems" by blast
      then show ?thesis using True eq by (subst puExtractEmigrants3D_loop.simps) simp
    qed
  qed
qed

text \<open>An emigration moves one particle from the live count to the recorded emigrants.\<close>

lemma emigrate3D_balance:
  assumes "s < nSp" "s' < nSp" "nSp \<le> length (iStop (fst st))" "0 \<le> ne" "ne < int (nNeighbors (snd st))"
  shows "balance nSp (emigrate3D nSp s ne p pStop st) s' = balance nSp st s'"
proof -
  obtain pop mpi where st: "st = (pop, mpi)" by (cases st)
  have len: "s < length (iStop pop)" using assms st by simp
  have "emigrantCount (snd (emigrate3D nSp s ne p pStop st)) nSp s'
        = emigrantCount mpi nSp s' + (if s' = s then 1 else 0)"
    using count_after_increment [OF assms(1,2,4), of "int (nNeighbors mpi)" "nEmigrants mpi"] assms(5)
    by (simp add: emigrate3D_def st emigrantCount_def Let_def)
  moreover have "iStop (fst (emigrate3D nSp s ne p pStop st)) ! s'
        = iStop pop ! s' - (if s' = s then 1 else 0)"
    using len by (simp add: emigrate3D_def st Let_def nth_list_update)
  ultimately show ?thesis by (simp add: balance_def st)
qed

lemma emigrate3D_frame:
  "iStart (fst (emigrate3D nSp s ne p pStop st)) = iStart (fst st)"
  "length (iStop (fst (emigrate3D nSp s ne p pStop st))) = length (iStop (fst st))"
  "nNeighbors (snd (emigrate3D nSp s ne p pStop st)) = nNeighbors (snd st)"
  by (simp_all add: emigrate3D_def Let_def case_prod_beta)


lemma resetEmigrants_count:
  assumes "s < nSp"
  shows "emigrantCount (resetEmigrants nSp mpi) nSp s = 0"
proof -
  have "alSetAll (nEmigrants mpi) (int nSp * int (nNeighbors mpi)) 0 (n * int nSp + int s) = 0"
    if "n \<in> {0..<int (nNeighbors mpi)}" for n
  proof -
    from that have n: "0 \<le> n" "n + 1 \<le> int (nNeighbors mpi)" by simp_all
    have "n * int nSp + int s < (n + 1) * int nSp" using assms by (simp add: algebra_simps)
    also have "\<dots> \<le> int (nNeighbors mpi) * int nSp"
      using n(2) by (intro mult_right_mono) simp_all
    finally have "n * int nSp + int s < int nSp * int (nNeighbors mpi)" by (simp add: mult.commute)
    moreover have "0 \<le> n * int nSp + int s" using n(1) by simp
    ultimately show ?thesis by (simp add: alSetAll_def)
  qed
  then show ?thesis by (simp add: emigrantCount_def resetEmigrants_def)
qed

lemma resetEmigrants_nNeighbors: "nNeighbors (resetEmigrants nSp mpi) = nNeighbors mpi"
  by (simp add: resetEmigrants_def)

lemma puExtractEmigrants3D_balance:
  assumes len: "nSpecies pop \<le> length (iStop pop)" and nb: "nNeighbors mpi = 27"
    and s: "s < nSpecies pop"
  shows "iStop (fst (puExtractEmigrants3D pop mpi)) ! s - iStart (fst (puExtractEmigrants3D pop mpi)) ! s
         = iStop pop ! s - iStart pop ! s
           - emigrantCount (snd (puExtractEmigrants3D pop mpi)) (nSpecies pop) s"
proof -
  define nSp where "nSp = nSpecies pop"
  define Inv where "Inv st \<longleftrightarrow>
      iStart (fst st) = iStart pop \<and> length (iStop (fst st)) = length (iStop pop)
      \<and> nNeighbors (snd st) = 27
      \<and> (\<forall>s'<nSp. balance nSp st s' = iStop pop ! s')" for st :: "Population \<times> MpiInfo"
  have init: "Inv (pop, resetEmigrants nSp mpi)"
    by (simp add: Inv_def balance_def resetEmigrants_count resetEmigrants_nNeighbors nb)
  have emig: "Inv (emigrate3D nSp j (neighbor3D thr (pos (fst st)) p) p pStop st)"
    if "j < nSp" "Inv st" for j thr p pStop st
  proof -
    have r: "0 \<le> neighbor3D thr (pos (fst st)) p"
            "neighbor3D thr (pos (fst st)) p < int (nNeighbors (snd st))"
      using neighbor3D_range [of thr "pos (fst st)" p] that(2) by (simp_all add: Inv_def)
    have l: "nSp \<le> length (iStop (fst st))" using that(2) len by (simp add: Inv_def nSp_def)
    show ?thesis
      using that(2) emigrate3D_balance [OF that(1) _ l r]
      by (simp add: Inv_def emigrate3D_frame)
  qed
  have "Inv (for_nat 0 nSp
       (\<lambda>s st. puExtractEmigrants3D_loop (thresholds mpi) (neighborhoodCenter mpi) nSp s
                  ((iStart (fst st) ! s) * 3) ((iStop (fst st) ! s) * 3) st)
       (pop, resetEmigrants nSp mpi))"
  proof (rule for_nat_invariant [where P = Inv and lo = 0, OF init])
    fix j st assume "j < nSp" "Inv st"
    then show "Inv (puExtractEmigrants3D_loop (thresholds mpi) (neighborhoodCenter mpi) nSp j
                  ((iStart (fst st) ! j) * 3) ((iStop (fst st) ! j) * 3) st)"
      by (intro puExtractEmigrants3D_loop_invariant [where P = Inv] emig)
  qed simp
  then have "Inv (puExtractEmigrants3D pop mpi)"
    by (simp add: puExtractEmigrants3D_def nSp_def)
  then have "iStart (fst (puExtractEmigrants3D pop mpi)) = iStart pop"
    and "balance nSp (puExtractEmigrants3D pop mpi) s = iStop pop ! s"
    using s by (simp_all add: Inv_def nSp_def)
  then show ?thesis by (simp add: balance_def nSp_def)
qed

text \<open>When no particle of the range emigrates, the particle loop changes nothing.\<close>

lemma puExtractEmigrants3D_loop_stay:
  assumes "\<forall>i. a \<le> i \<and> i < b \<longrightarrow> neighbor3D thr (pos (fst st)) (3 * i) = center"
  shows "puExtractEmigrants3D_loop thr center nSp s (3 * a) (3 * b) st = st"
  using assms
proof (induction "nat (b - a)" arbitrary: a)
  case 0
  then have "\<not> 3 * a < 3 * b" by simp
  then show ?case by (subst puExtractEmigrants3D_loop.simps) simp
next
  case (Suc k)
  then have lt: "3 * a < 3 * b" and k: "k = nat (b - (a + 1))" and here: "a \<le> a \<and> a < b" by simp_all
  have c: "neighbor3D thr (pos (fst st)) (3 * a) = center" using Suc.prems here by blast
  have rest: "\<forall>i. a + 1 \<le> i \<and> i < b \<longrightarrow> neighbor3D thr (pos (fst st)) (3 * i) = center"
    using Suc.prems by simp
  have "puExtractEmigrants3D_loop thr center nSp s (3 * a) (3 * b) st
        = puExtractEmigrants3D_loop thr center nSp s (3 * (a + 1)) (3 * b) st"
    using lt c by (subst puExtractEmigrants3D_loop.simps) (simp add: algebra_simps)
  also have "\<dots> = st" by (rule Suc.hyps(1) [OF k rest])
  finally show ?case .
qed

lemma puExtractEmigrants3D_stay:
  assumes center: "neighborhoodCenter mpi = 13"
    and within: "\<forall>s i. s < nSpecies pop \<and> iStart pop ! s \<le> i \<and> i < iStop pop ! s
                  \<longrightarrow> withinThresholds3D (thresholds mpi) (pos pop) (3 * i)"
  shows "fst (puExtractEmigrants3D pop mpi) = pop"
proof -
  let ?st0 = "(pop, resetEmigrants (nSpecies pop) mpi)"
  have "for_nat 0 (nSpecies pop)
       (\<lambda>s st. puExtractEmigrants3D_loop (thresholds mpi) (neighborhoodCenter mpi) (nSpecies pop) s
                  ((iStart (fst st) ! s) * 3) ((iStop (fst st) ! s) * 3) st) ?st0 = ?st0"
  proof (rule for_nat_invariant [where P = "\<lambda>st. st = ?st0" and lo = 0])
    fix j st assume j: "j < nSpecies pop" and st: "st = ?st0"
    have "\<forall>i. iStart pop ! j \<le> i \<and> i < iStop pop ! j \<longrightarrow>
            neighbor3D (thresholds mpi) (pos (fst ?st0)) (3 * i) = neighborhoodCenter mpi"
      using within j center by (simp add: neighbor3D_within)
    then have "puExtractEmigrants3D_loop (thresholds mpi) (neighborhoodCenter mpi) (nSpecies pop) j
                  (3 * (iStart pop ! j)) (3 * (iStop pop ! j)) ?st0 = ?st0"
      by (rule puExtractEmigrants3D_loop_stay)
    then show "puExtractEmigrants3D_loop (thresholds mpi) (neighborhoodCenter mpi) (nSpecies pop) j
                  ((iStart (fst st) ! j) * 3) ((iStop (fst st) ! j) * 3) st = ?st0"
      by (simp add: st mult.commute)
  qed simp_all
  then show ?thesis by (simp add: puExtractEmigrants3D_def)
qed


subsection \<open>The same in \<open>nD\<close> dimensions\<close>

lemma neighborND_loop_range:
  "0 \<le> ne \<Longrightarrow>
   ne * 3 ^ d \<le> neighborND_loop d nD thr ps p ne \<and> neighborND_loop d nD thr ps p ne < (ne + 1) * 3 ^ d"
proof (induction d arbitrary: ne)
  case 0
  then show ?case by simp
next
  case (Suc d)
  define ne' where "ne' = ne * 3 + (1 - c_bool (ps (p + int d) < thr ! d)
                                      + c_bool (ps (p + int d) \<ge> thr ! (nD + d)))"
  have b: "ne * 3 \<le> ne'" "ne' + 1 \<le> (ne + 1) * 3" by (simp_all add: ne'_def c_bool_def)
  with Suc.prems have "0 \<le> ne'" by simp
  then have ih: "ne' * 3 ^ d \<le> neighborND_loop d nD thr ps p ne'"
      "neighborND_loop d nD thr ps p ne' < (ne' + 1) * 3 ^ d"
    using Suc.IH by simp_all
  have "ne * 3 * 3 ^ d \<le> ne' * 3 ^ d" using b(1) by (intro mult_right_mono) simp_all
  moreover have "(ne' + 1) * 3 ^ d \<le> (ne + 1) * 3 * 3 ^ d" using b(2) by (intro mult_right_mono) simp_all
  ultimately show ?case using ih by (simp add: ne'_def algebra_simps)
qed

lemma neighborND_range: "0 \<le> neighborND nD thr ps p \<and> neighborND nD thr ps p < 3 ^ nD"
  using neighborND_loop_range [of 0 nD nD thr ps p] by (simp add: neighborND_def)

lemma three_power_half: "((3::int) ^ Suc d - 1) div 2 = 3 * ((3 ^ d - 1) div 2) + 1"
proof -
  have "odd ((3::int) ^ d)" by simp
  then obtain m where m: "(3::int) ^ d = 2 * m + 1" by (rule oddE)
  then show ?thesis by simp
qed

lemma neighborND_loop_within:
  assumes "\<forall>e<d. thr ! e \<le> ps (p + int e) \<and> ps (p + int e) < thr ! (nD + e)"
  shows "neighborND_loop d nD thr ps p ne = ne * 3 ^ d + (3 ^ d - 1) div 2"
  using assms
proof (induction d arbitrary: ne)
  case 0
  then show ?case by simp
next
  case (Suc d)
  have here: "thr ! d \<le> ps (p + int d)" "ps (p + int d) < thr ! (nD + d)" using Suc.prems by simp_all
  have rest: "\<forall>e<d. thr ! e \<le> ps (p + int e) \<and> ps (p + int e) < thr ! (nD + e)"
    using Suc.prems by simp
  have "neighborND_loop (Suc d) nD thr ps p ne = neighborND_loop d nD thr ps p (ne * 3 + 1)"
    using here by (simp add: c_bool_def)
  also have "\<dots> = (ne * 3 + 1) * 3 ^ d + (3 ^ d - 1) div 2" by (rule Suc.IH [OF rest])
  also have "\<dots> = ne * 3 ^ Suc d + (3 ^ Suc d - 1) div 2"
    unfolding three_power_half by (simp add: algebra_simps)
  finally show ?case .
qed

lemma neighborND_within:
  "withinThresholdsND nD thr ps p \<Longrightarrow> neighborND nD thr ps p = (3 ^ nD - 1) div 2"
  unfolding neighborND_def
  by (subst neighborND_loop_within) (simp_all add: withinThresholdsND_def list_all_iff)

lemma puExtractEmigrantsND_loop_invariant:
  "P st \<Longrightarrow>
   (\<And>p pStop st. P st \<Longrightarrow> P (emigrateND nD nSp s (neighborND nD thr (pos (fst st)) p) p pStop st)) \<Longrightarrow>
   P (puExtractEmigrantsND_loop nD thr center nSp s p pStop st)"
proof (induction nD thr center nSp s p pStop st rule: puExtractEmigrantsND_loop.induct)
  case (1 nD thr center nSp s p pStop st)
  show ?case
  proof (cases "p < pStop \<and> 0 < nD")
    case False
    then have "puExtractEmigrantsND_loop nD thr center nSp s p pStop st = st"
      by (subst puExtractEmigrantsND_loop.simps) auto
    then show ?thesis using "1.prems"(1) by simp
  next
    case True
    show ?thesis
    proof (cases "neighborND nD thr (pos (fst st)) p \<noteq> center")
      case ne: True
      have "P (emigrateND nD nSp s (neighborND nD thr (pos (fst st)) p) p pStop st)"
        using "1.prems" by blast
      then have "P (puExtractEmigrantsND_loop nD thr center nSp s (p - int nD + int nD) (pStop - int nD)
                (emigrateND nD nSp s (neighborND nD thr (pos (fst st)) p) p pStop st))"
        using "1.IH"(1) [OF True ne] "1.prems"(2) by blast
      then show ?thesis using True ne by (subst puExtractEmigrantsND_loop.simps) simp
    next
      case eq: False
      have "P (puExtractEmigrantsND_loop nD thr center nSp s (p + int nD) pStop st)"
        using "1.IH"(2) [OF True eq] "1.prems" by blast
      then show ?thesis using True eq by (subst puExtractEmigrantsND_loop.simps) simp
    qed
  qed
qed

lemma emigrateND_balance:
  assumes "s < nSp" "s' < nSp" "nSp \<le> length (iStop (fst st))" "0 \<le> ne" "ne < int (nNeighbors (snd st))"
  shows "balance nSp (emigrateND nD nSp s ne p pStop st) s' = balance nSp st s'"
proof -
  obtain pop mpi where st: "st = (pop, mpi)" by (cases st)
  have len: "s < length (iStop pop)" using assms st by simp
  have "emigrantCount (snd (emigrateND nD nSp s ne p pStop st)) nSp s'
        = emigrantCount mpi nSp s' + (if s' = s then 1 else 0)"
    using count_after_increment [OF assms(1,2,4), of "int (nNeighbors mpi)" "nEmigrants mpi"] assms(5)
    by (simp add: emigrateND_def st emigrantCount_def Let_def)
  moreover have "iStop (fst (emigrateND nD nSp s ne p pStop st)) ! s'
        = iStop pop ! s' - (if s' = s then 1 else 0)"
    using len by (simp add: emigrateND_def st Let_def nth_list_update)
  ultimately show ?thesis by (simp add: balance_def st)
qed

lemma emigrateND_frame:
  "iStart (fst (emigrateND nD nSp s ne p pStop st)) = iStart (fst st)"
  "length (iStop (fst (emigrateND nD nSp s ne p pStop st))) = length (iStop (fst st))"
  "nNeighbors (snd (emigrateND nD nSp s ne p pStop st)) = nNeighbors (snd st)"
  by (simp_all add: emigrateND_def Let_def case_prod_beta)

lemma puExtractEmigrantsND_balance:
  assumes len: "nSpecies pop \<le> length (iStop pop)" and nb: "nNeighbors mpi = 3 ^ nDims pop"
    and s: "s < nSpecies pop"
  shows "iStop (fst (puExtractEmigrantsND pop mpi)) ! s - iStart (fst (puExtractEmigrantsND pop mpi)) ! s
         = iStop pop ! s - iStart pop ! s
           - emigrantCount (snd (puExtractEmigrantsND pop mpi)) (nSpecies pop) s"
proof -
  define nSp where "nSp = nSpecies pop"
  define nD where "nD = nDims pop"
  define Inv where "Inv st \<longleftrightarrow>
      iStart (fst st) = iStart pop \<and> length (iStop (fst st)) = length (iStop pop)
      \<and> nNeighbors (snd st) = 3 ^ nD
      \<and> (\<forall>s'<nSp. balance nSp st s' = iStop pop ! s')" for st :: "Population \<times> MpiInfo"
  have init: "Inv (pop, resetEmigrants nSp mpi)"
    by (simp add: Inv_def balance_def resetEmigrants_count resetEmigrants_nNeighbors nb nD_def)
  have emig: "Inv (emigrateND nD nSp j (neighborND nD thr (pos (fst st)) p) p pStop st)"
    if "j < nSp" "Inv st" for j thr p pStop st
  proof -
    have r: "0 \<le> neighborND nD thr (pos (fst st)) p"
            "neighborND nD thr (pos (fst st)) p < int (nNeighbors (snd st))"
      using neighborND_range [of nD thr "pos (fst st)" p] that(2) by (simp_all add: Inv_def)
    have l: "nSp \<le> length (iStop (fst st))" using that(2) len by (simp add: Inv_def nSp_def)
    show ?thesis
      using that(2) emigrateND_balance [OF that(1) _ l r]
      by (simp add: Inv_def emigrateND_frame)
  qed
  have "Inv (for_nat 0 nSp
       (\<lambda>s st. puExtractEmigrantsND_loop nD (thresholds mpi) (neighborhoodCenter mpi) nSp s
                  ((iStart (fst st) ! s) * int nD) ((iStop (fst st) ! s) * int nD) st)
       (pop, resetEmigrants nSp mpi))"
  proof (rule for_nat_invariant [where P = Inv and lo = 0, OF init])
    fix j st assume "j < nSp" "Inv st"
    then show "Inv (puExtractEmigrantsND_loop nD (thresholds mpi) (neighborhoodCenter mpi) nSp j
                  ((iStart (fst st) ! j) * int nD) ((iStop (fst st) ! j) * int nD) st)"
      by (intro puExtractEmigrantsND_loop_invariant [where P = Inv] emig)
  qed simp
  then have "Inv (puExtractEmigrantsND pop mpi)"
    by (simp add: puExtractEmigrantsND_def nSp_def nD_def)
  then have "iStart (fst (puExtractEmigrantsND pop mpi)) = iStart pop"
    and "balance nSp (puExtractEmigrantsND pop mpi) s = iStop pop ! s"
    using s by (simp_all add: Inv_def nSp_def)
  then show ?thesis by (simp add: balance_def nSp_def)
qed

lemma puExtractEmigrantsND_loop_stay:
  assumes "\<forall>i. a \<le> i \<and> i < b \<longrightarrow> neighborND nD thr (pos (fst st)) (int nD * i) = center"
  shows "puExtractEmigrantsND_loop nD thr center nSp s (int nD * a) (int nD * b) st = st"
  using assms
proof (induction "nat (b - a)" arbitrary: a)
  case 0
  then have "b \<le> a" by simp
  then have "int nD * b \<le> int nD * a" by (intro mult_left_mono) simp_all
  then have "\<not> int nD * a < int nD * b" by simp
  then show ?case by (subst puExtractEmigrantsND_loop.simps) simp
next
  case (Suc k)
  then have lt: "a < b" and k: "k = nat (b - (a + 1))" by simp_all
  have c: "neighborND nD thr (pos (fst st)) (int nD * a) = center" using Suc.prems lt by simp
  have rest: "\<forall>i. a + 1 \<le> i \<and> i < b \<longrightarrow> neighborND nD thr (pos (fst st)) (int nD * i) = center"
    using Suc.prems by simp
  show ?case
  proof (cases "0 < nD")
    case False
    then show ?thesis by (subst puExtractEmigrantsND_loop.simps) simp
  next
    case True
    then have "int nD * a < int nD * b" using lt by simp
    then have "puExtractEmigrantsND_loop nD thr center nSp s (int nD * a) (int nD * b) st
        = puExtractEmigrantsND_loop nD thr center nSp s (int nD * (a + 1)) (int nD * b) st"
      using True c by (subst puExtractEmigrantsND_loop.simps) (simp add: algebra_simps)
    also have "\<dots> = st" by (rule Suc.hyps(1) [OF k rest])
    finally show ?thesis .
  qed
qed

lemma puExtractEmigrantsND_stay:
  assumes center: "neighborhoodCenter mpi = (3 ^ nDims pop - 1) div 2"
    and within: "\<forall>s i. s < nSpecies pop \<and> iStart pop ! s \<le> i \<and> i < iStop pop ! s
                  \<longrightarrow> withinThresholdsND (nDims pop) (thresholds mpi) (pos pop) (int (nDims pop) * i)"
  shows "fst (puExtractEmigrantsND pop mpi) = pop"
proof -
  let ?st0 = "(pop, resetEmigrants (nSpecies pop) mpi)"
  have "for_nat 0 (nSpecies pop)
       (\<lambda>s st. puExtractEmigrantsND_loop (nDims pop) (thresholds mpi) (neighborhoodCenter mpi)
                  (nSpecies pop) s
                  ((iStart (fst st) ! s) * int (nDims pop)) ((iStop (fst st) ! s) * int (nDims pop)) st)
        ?st0 = ?st0"
  proof (rule for_nat_invariant [where P = "\<lambda>st. st = ?st0" and lo = 0])
    fix j st assume j: "j < nSpecies pop" and st: "st = ?st0"
    have "\<forall>i. iStart pop ! j \<le> i \<and> i < iStop pop ! j \<longrightarrow>
            neighborND (nDims pop) (thresholds mpi) (pos (fst ?st0)) (int (nDims pop) * i)
              = neighborhoodCenter mpi"
      using within j center by (simp add: neighborND_within)
    then have "puExtractEmigrantsND_loop (nDims pop) (thresholds mpi) (neighborhoodCenter mpi)
                  (nSpecies pop) j
                  (int (nDims pop) * (iStart pop ! j)) (int (nDims pop) * (iStop pop ! j)) ?st0 = ?st0"
      by (rule puExtractEmigrantsND_loop_stay)
    then show "puExtractEmigrantsND_loop (nDims pop) (thresholds mpi) (neighborhoodCenter mpi)
                  (nSpecies pop) j
                  ((iStart (fst st) ! j) * int (nDims pop)) ((iStop (fst st) ! j) * int (nDims pop)) st
               = ?st0"
      by (simp add: st mult.commute)
  qed simp_all
  then show ?thesis by (simp add: puExtractEmigrantsND_def)
qed


text \<open>
  C6. For every population (with \<open>iStop\<close> holding an entry per species) and every species
  \<open>s\<close>, after \<^verbatim>\<open>puExtractEmigrants3D\<close> (with the 27 neighbours of three dimensions),
  respectively \<^verbatim>\<open>puExtractEmigrantsND\<close> (with the \<open>3^nDims\<close> neighbours of \<open>nDims\<close> dimensions),
  the live count \<open>iStop[s] - iStart[s]\<close> equals its value before the call minus the sum over
  the neighbours \<open>n\<close> of \<open>nEmigrants[n*nSpecies+s]\<close>; and the count is unchanged when no live
  particle has crossed a migration threshold (the centre of the neighbourhood being 13,
  respectively \<open>(3^nDims - 1)/2\<close>).
\<close>

theorem C6_extraction_decreases_count_by_emigrants:
  assumes "nSpecies pop \<le> length (iStop pop)" and "s < nSpecies pop"
  shows
    "(nNeighbors mpi = 27 \<longrightarrow>
        iStop (fst (puExtractEmigrants3D pop mpi)) ! s - iStart (fst (puExtractEmigrants3D pop mpi)) ! s
        = iStop pop ! s - iStart pop ! s
          - emigrantCount (snd (puExtractEmigrants3D pop mpi)) (nSpecies pop) s)
     \<and> (neighborhoodCenter mpi = 13
         \<and> (\<forall>t i. t < nSpecies pop \<and> iStart pop ! t \<le> i \<and> i < iStop pop ! t
                \<longrightarrow> withinThresholds3D (thresholds mpi) (pos pop) (3 * i)) \<longrightarrow>
        iStop (fst (puExtractEmigrants3D pop mpi)) ! s - iStart (fst (puExtractEmigrants3D pop mpi)) ! s
        = iStop pop ! s - iStart pop ! s)
     \<and> (nNeighbors mpi = 3 ^ nDims pop \<longrightarrow>
        iStop (fst (puExtractEmigrantsND pop mpi)) ! s - iStart (fst (puExtractEmigrantsND pop mpi)) ! s
        = iStop pop ! s - iStart pop ! s
          - emigrantCount (snd (puExtractEmigrantsND pop mpi)) (nSpecies pop) s)
     \<and> (neighborhoodCenter mpi = (3 ^ nDims pop - 1) div 2
         \<and> (\<forall>t i. t < nSpecies pop \<and> iStart pop ! t \<le> i \<and> i < iStop pop ! t
                \<longrightarrow> withinThresholdsND (nDims pop) (thresholds mpi) (pos pop) (int (nDims pop) * i)) \<longrightarrow>
        iStop (fst (puExtractEmigrantsND pop mpi)) ! s - iStart (fst (puExtractEmigrantsND pop mpi)) ! s
        = iStop pop ! s - iStart pop ! s)"
  using assms
  by (auto simp: puExtractEmigrants3D_balance puExtractEmigrantsND_balance
        puExtractEmigrants3D_stay puExtractEmigrantsND_stay)

text \<open>
  The code evaluated on a population of three particles of which the second lies beyond the
  upper threshold of the first axis.
\<close>

lemmas extract_eval = puExtractEmigrants3D_def puExtractEmigrantsND_def for_nat.simps
  puExtractEmigrants3D_loop.simps puExtractEmigrantsND_loop.simps emigrate3D_def emigrateND_def
  neighbor3D_def neighborND_def c_bool_def onePop_def store_def mpi3D_def Let_def

lemma extract3D_concrete:
  "iStop (fst (puExtractEmigrants3D (onePop [1, 1, 1, 3, 1, 1, 1, 1, 1] [0, 0, 0, 5, 6, 7, 0, 0, 0]) mpi3D)) = [2]"
  "iStart (fst (puExtractEmigrants3D (onePop [1, 1, 1, 3, 1, 1, 1, 1, 1] [0, 0, 0, 5, 6, 7, 0, 0, 0]) mpi3D)) = [0]"
  by (simp_all add: extract_eval)

lemma extractND_concrete:
  "iStop (fst (puExtractEmigrantsND (onePop [1, 1, 1, 3, 1, 1, 1, 1, 1] [0, 0, 0, 5, 6, 7, 0, 0, 0]) mpi3D)) = [2]"
  "iStart (fst (puExtractEmigrantsND (onePop [1, 1, 1, 3, 1, 1, 1, 1, 1] [0, 0, 0, 5, 6, 7, 0, 0, 0]) mpi3D)) = [0]"
  by (simp_all add: extract_eval numeral_3_eq_3)


text \<open>
  The emigrant of that population is the particle at \<open>(3, 1, 1)\<close>: it goes to neighbour 14
  with its velocity, and the slot of neighbour 14 counts it.
\<close>

lemma extract3D_example_slot:
  "nEmigrants (snd (puExtractEmigrants3D (onePop [1, 1, 1, 3, 1, 1, 1, 1, 1] [0, 0, 0, 5, 6, 7, 0, 0, 0]) mpi3D)) 14 = 1
   \<and> emigrants (snd (puExtractEmigrants3D (onePop [1, 1, 1, 3, 1, 1, 1, 1, 1] [0, 0, 0, 5, 6, 7, 0, 0, 0]) mpi3D)) 14
       = [3, 1, 1, 5, 6, 7]"
  by (simp add: extract_eval resetEmigrants_def alSetAll_def for_loop.simps)

text \<open>A population with a single particle, inside all thresholds.\<close>

lemma onePop_within:
  "\<forall>t i. t < nSpecies (onePop [1, 1, 1] vs) \<and> iStart (onePop [1, 1, 1] vs) ! t \<le> i
         \<and> i < iStop (onePop [1, 1, 1] vs) ! t
     \<longrightarrow> withinThresholds3D (thresholds mpi3D) (pos (onePop [1, 1, 1] vs)) (3 * i)"
  "\<forall>t i. t < nSpecies (onePop [1, 1, 1] vs) \<and> iStart (onePop [1, 1, 1] vs) ! t \<le> i
         \<and> i < iStop (onePop [1, 1, 1] vs) ! t
     \<longrightarrow> withinThresholdsND (nDims (onePop [1, 1, 1] vs)) (thresholds mpi3D) (pos (onePop [1, 1, 1] vs))
           (int (nDims (onePop [1, 1, 1] vs)) * i)"
proof -
  have i0: "i = 0" if "t < nSpecies (onePop [1, 1, 1] vs) \<and> iStart (onePop [1, 1, 1] vs) ! t \<le> i
         \<and> i < iStop (onePop [1, 1, 1] vs) ! t" for t i
    using that by (auto simp: onePop_def)
  have w3: "withinThresholds3D (thresholds mpi3D) (pos (onePop [1, 1, 1] vs)) (3 * 0)"
    by (simp add: withinThresholds3D_def mpi3D_def onePop_def store_def)
  have wN: "withinThresholdsND (nDims (onePop [1, 1, 1] vs)) (thresholds mpi3D) (pos (onePop [1, 1, 1] vs))
           (int (nDims (onePop [1, 1, 1] vs)) * 0)"
    by (simp add: withinThresholdsND_def mpi3D_def onePop_def store_def numeral_3_eq_3)
  show "\<forall>t i. t < nSpecies (onePop [1, 1, 1] vs) \<and> iStart (onePop [1, 1, 1] vs) ! t \<le> i
         \<and> i < iStop (onePop [1, 1, 1] vs) ! t
     \<longrightarrow> withinThresholds3D (thresholds mpi3D) (pos (onePop [1, 1, 1] vs)) (3 * i)"
    using i0 w3 by blast
  show "\<forall>t i. t < nSpecies (onePop [1, 1, 1] vs) \<and> iStart (onePop [1, 1, 1] vs) ! t \<le> i
         \<and> i < iStop (onePop [1, 1, 1] vs) ! t
     \<longrightarrow> withinThresholdsND (nDims (onePop [1, 1, 1] vs)) (thresholds mpi3D) (pos (onePop [1, 1, 1] vs))
           (int (nDims (onePop [1, 1, 1] vs)) * i)"
    using i0 wN by blast
qed

theorem C6_extraction_decreases_count_witness:
  "nSpecies (onePop [1, 1, 1, 3, 1, 1, 1, 1, 1] [0, 0, 0, 5, 6, 7, 0, 0, 0])
     \<le> length (iStop (onePop [1, 1, 1, 3, 1, 1, 1, 1, 1] [0, 0, 0, 5, 6, 7, 0, 0, 0]))
   \<and> 0 < nSpecies (onePop [1, 1, 1, 3, 1, 1, 1, 1, 1] [0, 0, 0, 5, 6, 7, 0, 0, 0])
   \<and> nNeighbors mpi3D = 27
   \<and> nNeighbors mpi3D = 3 ^ nDims (onePop [1, 1, 1, 3, 1, 1, 1, 1, 1] [0, 0, 0, 5, 6, 7, 0, 0, 0])
   \<and> iStop (onePop [1, 1, 1, 3, 1, 1, 1, 1, 1] [0, 0, 0, 5, 6, 7, 0, 0, 0]) ! 0
       - iStart (onePop [1, 1, 1, 3, 1, 1, 1, 1, 1] [0, 0, 0, 5, 6, 7, 0, 0, 0]) ! 0 = 3
   \<and> iStop (fst (puExtractEmigrants3D (onePop [1, 1, 1, 3, 1, 1, 1, 1, 1] [0, 0, 0, 5, 6, 7, 0, 0, 0]) mpi3D)) ! 0
       - iStart (fst (puExtractEmigrants3D (onePop [1, 1, 1, 3, 1, 1, 1, 1, 1] [0, 0, 0, 5, 6, 7, 0, 0, 0]) mpi3D)) ! 0 = 2
   \<and> emigrantCount (snd (puExtractEmigrants3D (onePop [1, 1, 1, 3, 1, 1, 1, 1, 1] [0, 0, 0, 5, 6, 7, 0, 0, 0]) mpi3D)) 1 0 = 1
   \<and> iStop (fst (puExtractEmigrantsND (onePop [1, 1, 1, 3, 1, 1, 1, 1, 1] [0, 0, 0, 5, 6, 7, 0, 0, 0]) mpi3D)) ! 0
       - iStart (fst (puExtractEmigrantsND (onePop [1, 1, 1, 3, 1, 1, 1, 1, 1] [0, 0, 0, 5, 6, 7, 0, 0, 0]) mpi3D)) ! 0 = 2
   \<and> emigrantCount (snd (puExtractEmigrantsND (onePop [1, 1, 1, 3, 1, 1, 1, 1, 1] [0, 0, 0, 5, 6, 7, 0, 0, 0]) mpi3D)) 1 0 = 1
   \<and> neighborhoodCenter mpi3D = 13
   \<and> neighborhoodCenter mpi3D = (3 ^ nDims (onePop [1, 1, 1] [0, 0, 0]) - 1) div 2
   \<and> withinThresholds3D (thresholds mpi3D) (pos (onePop [1, 1, 1] [0, 0, 0])) 0
   \<and> withinThresholdsND 3 (thresholds mpi3D) (pos (onePop [1, 1, 1] [0, 0, 0])) 0
   \<and> iStop (onePop [1, 1, 1] [0, 0, 0]) ! 0 - iStart (onePop [1, 1, 1] [0, 0, 0]) ! 0 = 1
   \<and> iStop (fst (puExtractEmigrants3D (onePop [1, 1, 1] [0, 0, 0]) mpi3D)) ! 0
       - iStart (fst (puExtractEmigrants3D (onePop [1, 1, 1] [0, 0, 0]) mpi3D)) ! 0 = 1
   \<and> iStop (fst (puExtractEmigrantsND (onePop [1, 1, 1] [0, 0, 0]) mpi3D)) ! 0
       - iStart (fst (puExtractEmigrantsND (onePop [1, 1, 1] [0, 0, 0]) mpi3D)) ! 0 = 1"
proof -
  let ?P = "onePop [1, 1, 1, 3, 1, 1, 1, 1, 1] [0, 0, 0, 5, 6, 7, 0, 0, 0]"
  let ?Q = "onePop [1, 1, 1] [0, 0, 0]"
  have hP: "nSpecies ?P \<le> length (iStop ?P)" "0 < nSpecies ?P" "nSpecies ?P = 1"
      "nNeighbors mpi3D = 27" "nNeighbors mpi3D = 3 ^ nDims ?P" "iStop ?P ! 0 - iStart ?P ! 0 = 3"
    by (simp_all add: onePop_def mpi3D_def)
  have hQ: "nSpecies ?Q \<le> length (iStop ?Q)" "0 < nSpecies ?Q" "neighborhoodCenter mpi3D = 13"
      "neighborhoodCenter mpi3D = (3 ^ nDims ?Q - 1) div 2" "iStop ?Q ! 0 - iStart ?Q ! 0 = 1"
    by (simp_all add: onePop_def mpi3D_def)
  have w: "withinThresholds3D (thresholds mpi3D) (pos ?Q) 0"
      "withinThresholdsND 3 (thresholds mpi3D) (pos ?Q) 0"
    by (simp_all add: withinThresholds3D_def withinThresholdsND_def mpi3D_def onePop_def store_def
          numeral_3_eq_3)
  note tP = C6_extraction_decreases_count_by_emigrants [OF hP(1,2), of mpi3D]
  note tQ = C6_extraction_decreases_count_by_emigrants [OF hQ(1,2), of mpi3D]
  have a3: "iStop (fst (puExtractEmigrants3D ?P mpi3D)) ! 0
            - iStart (fst (puExtractEmigrants3D ?P mpi3D)) ! 0 = 2"
    by (simp add: extract3D_concrete)
  have aN: "iStop (fst (puExtractEmigrantsND ?P mpi3D)) ! 0
            - iStart (fst (puExtractEmigrantsND ?P mpi3D)) ! 0 = 2"
    by (simp add: extractND_concrete)
  have c3: "emigrantCount (snd (puExtractEmigrants3D ?P mpi3D)) 1 0 = 1"
    using tP hP a3 by simp
  have cN: "emigrantCount (snd (puExtractEmigrantsND ?P mpi3D)) 1 0 = 1"
    using tP hP aN by simp
  have s3: "iStop (fst (puExtractEmigrants3D ?Q mpi3D)) ! 0
            - iStart (fst (puExtractEmigrants3D ?Q mpi3D)) ! 0 = 1"
    using tQ hQ onePop_within(1) [of "[0, 0, 0]"] by simp
  have sN: "iStop (fst (puExtractEmigrantsND ?Q mpi3D)) ! 0
            - iStart (fst (puExtractEmigrantsND ?Q mpi3D)) ! 0 = 1"
    using tQ hQ onePop_within(2) [of "[0, 0, 0]"] by simp
  from hP(1,2,4,5,6) a3 c3 aN cN hQ(3,4) w hQ(5) s3 sN show ?thesis by (intro conjI)
qed

end
